theory Spec2Isabelle
  imports Main
begin

section \<open>Decoded JSON and the Python operations the client applies to it\<close>

text \<open>
  A frame as \<^verbatim>\<open>json.loads\<close> returns it: \<^verbatim>\<open>None\<close>, a bool, an int, a str, a list
  or a dict. Python's \<^verbatim>\<open>None\<close> is \<open>JNull\<close>. A dict is an association list read from
  the left. JSON numbers with a fraction or an exponent decode to floats and are not part
  of this model.
\<close>

datatype json =
    JNull
  | JBool bool
  | JInt int
  | JStr string
  | JList "json list"
  | JObj "(string \<times> json) list"

text \<open>\<^verbatim>\<open>d.get(k)\<close> on a dict: the value, or \<^verbatim>\<open>None\<close> when the key is missing.\<close>

definition dict_get :: "(string \<times> json) list \<Rightarrow> string \<Rightarrow> json" where
  "dict_get kvs k = (case map_of kvs k of None \<Rightarrow> JNull | Some v \<Rightarrow> v)"

text \<open>
  \<^verbatim>\<open>case 1:\<close> in a \<^verbatim>\<open>match\<close> statement is a literal pattern: it compares the
  subject with \<^verbatim>\<open>==\<close>, and in Python \<^verbatim>\<open>True == 1\<close> and \<^verbatim>\<open>False == 0\<close>.
\<close>

fun py_eq_int :: "json \<Rightarrow> int \<Rightarrow> bool" where
  "py_eq_int (JInt n) k = (n = k)"
| "py_eq_int (JBool b) k = ((if b then 1 else 0) = k)"
| "py_eq_int _ k = False"

text \<open>
  Looking a decoded value up in a dict whose keys are all ints
  (\<^verbatim>\<open>self.pending_responses\<close>): a list or a dict is unhashable and the lookup raises
  \<^verbatim>\<open>TypeError\<close>; a bool hashes and compares as 0 or 1; \<^verbatim>\<open>None\<close> and strings hash
  but equal no int.
\<close>

datatype key = Unhashable | NoIntKey | IntKey int

fun py_key :: "json \<Rightarrow> key" where
  "py_key (JInt n) = IntKey n"
| "py_key (JBool b) = IntKey (if b then 1 else 0)"
| "py_key JNull = NoIntKey"
| "py_key (JStr v) = NoIntKey"
| "py_key (JList v) = Unhashable"
| "py_key (JObj v) = Unhashable"

text \<open>Truth value of a decoded value, as \<^verbatim>\<open>if x:\<close> and \<^verbatim>\<open>x or y\<close> test it.\<close>

fun py_truthy :: "json \<Rightarrow> bool" where
  "py_truthy JNull = False"
| "py_truthy (JBool b) = b"
| "py_truthy (JInt n) = (n \<noteq> 0)"
| "py_truthy (JStr v) = (v \<noteq> [])"
| "py_truthy (JList v) = (v \<noteq> [])"
| "py_truthy (JObj v) = (v \<noteq> [])"

section \<open>The client's state\<close>

text \<open>
  An entry of \<^verbatim>\<open>self.pending_responses\<close>. \<^verbatim>\<open>send_command\<close> stores
  \<^verbatim>\<open>{"event": event, "response": None, "opcode": opcode}\<close>: the flag of the
  \<^verbatim>\<open>threading.Event\<close>, the response slot and the opcode. \<^verbatim>\<open>send_command_async\<close>
  stores \<^verbatim>\<open>{"future": future, "opcode": opcode}\<close>; the result given to the future is
  kept in the field \<open>futures\<close> of the state, under the request's sequence id.
\<close>

datatype pending =
    EventEntry bool json int
  | FutureEntry int

datatype timeout_msg =
    ConnectTimedOut
  | RequestTimedOut int int nat
  | AsyncRequestTimedOut int int

datatype error =
    ConnectionError
  | TimeoutError timeout_msg
  | RuntimeError
  | WebSocketClosedError
  | ValueError
  | KeyError
  | IndexError
  | TypeError
  | AttributeError
  | HTTPError
  | OtherError

text \<open>The logger calls at debug, warning and error level; info lines are left out.\<close>

datatype log_entry =
    LogApiResponse int int json
  | LogApiError json
  | LogUnexpected json
  | LogProcessingError
  | LogConnectionFailed error
  | LogServerClosed
  | LogListenerClosed
  | LogListenerError
  | LogReconnectFailed error
  | LogResubscribeFailed int error
  | LogHeartbeatClosed
  | LogHeartbeatError
  | LogNoToken
  | LogCallbackException

datatype socket = OpenSocket | ClosedSocket

text \<open>\<^verbatim>\<open>tornado.ioloop.PeriodicCallback(f, callback_time)\<close>: its period in milliseconds
  and whether it is started.\<close>

datatype periodic = PeriodicCallback nat bool

text \<open>
  The fields of \<^verbatim>\<open>MaxAPI\<close> the modelled methods read or write, and the effects they
  have on the outside:
  \<^item> \<open>seq_counter\<close> is the value \<^verbatim>\<open>next(self.seq_counter)\<close> returns next
    (\<^verbatim>\<open>itertools.count()\<close> starts at 0);
  \<^item> \<open>subscribed_chats\<close> lists the members of the set in its iteration order, each as
    the integer \<^verbatim>\<open>int(chat_id)\<close> the replay sends;
  \<^item> \<open>callbacks\<close> are the \<^verbatim>\<open>self.ws.write_message\<close> calls queued with
    \<^verbatim>\<open>self.ioloop.add_callback\<close> and not yet run, oldest first;
  \<^item> \<open>sent\<close> are the frames written to a socket, \<open>events\<close> the frames handed to
    \<^verbatim>\<open>self.on_event\<close> through the executor, \<open>futures\<close> the results set on futures,
    \<open>logged\<close> the logger calls, \<open>sleeps\<close> the arguments of
    \<^verbatim>\<open>tornado.gen.sleep\<close>, in order;
  \<^item> \<open>registered\<close> are the keys under which entries were stored in
    \<^verbatim>\<open>self.pending_responses\<close>, in the order of the stores;
  \<^item> \<open>clock\<close> is the time in seconds, as \<^verbatim>\<open>self.ioloop.time()\<close> reads it;
  \<^item> \<open>ioloop\<close> tells whether \<^verbatim>\<open>self.ioloop\<close> is set (it is \<^verbatim>\<open>None\<close> before
    \<^verbatim>\<open>_start_ioloop\<close> and after \<^verbatim>\<open>close\<close>).
\<close>

record client =
  token :: "string option"
  auto_reconnect :: bool
  is_running :: bool
  should_reconnect :: bool
  seq_counter :: int
  pending_responses :: "int \<rightharpoonup> pending"
  ready_event :: bool
  ws :: "socket option"
  heartbeat_callback :: "periodic option"
  subscribed_chats :: "int list"
  user :: json
  chats :: "json \<rightharpoonup> json"
  callbacks :: "json list"
  sent :: "json list"
  events :: "json list"
  futures :: "int \<rightharpoonup> json"
  logged :: "log_entry list"
  sleeps :: "nat list"
  registered :: "int list"
  clock :: nat
  ioloop :: bool

definition log_line :: "log_entry \<Rightarrow> client \<Rightarrow> client" where
  "log_line e s = s\<lparr>logged := logged s @ [e]\<rparr>"

definition HEARTBEAT :: int where "HEARTBEAT = 1"
definition HANDSHAKE :: int where "HANDSHAKE = 6"
definition AUTHENTICATE :: int where "AUTHENTICATE = 19"
definition SUBSCRIBE_TO_CHAT :: int where "SUBSCRIBE_TO_CHAT = 75"

section \<open>Demultiplexing inbound frames\<close>

text \<open>
  \<^verbatim>\<open>_process_message(message)\<close>. The argument is what \<^verbatim>\<open>json.loads(message)\<close>
  gives: \<open>None\<close> when it raises. Every exception of the body is caught and logged:
  \<^verbatim>\<open>data.get\<close> on a value that is not a dict, and the lookup of an unhashable
  \<^verbatim>\<open>seq\<close>. An entry found in the table is a non-empty dict, so
  \<^verbatim>\<open>if pending_request:\<close> holds exactly when the key is present.
  \<^verbatim>\<open>self.on_event\<close> is always a callable (\<^verbatim>\<open>__init__\<close> falls back to
  \<^verbatim>\<open>_default_on_event\<close>), so its guard always passes.
\<close>

definition process_message :: "json option \<Rightarrow> client \<Rightarrow> client" where
  "process_message message s =
    (case message of
       None \<Rightarrow> log_line LogProcessingError s
     | Some data \<Rightarrow>
        (case data of
           JObj kvs \<Rightarrow>
             (if py_eq_int (dict_get kvs ''cmd'') 1 then
                (case py_key (dict_get kvs ''seq'') of
                   Unhashable \<Rightarrow> log_line LogProcessingError s
                 | NoIntKey \<Rightarrow> s
                 | IntKey seq_id \<Rightarrow>
                    (case pending_responses s seq_id of
                       None \<Rightarrow> s
                     | Some (EventEntry flag resp original_opcode) \<Rightarrow>
                         (if original_opcode \<noteq> HEARTBEAT
                          then log_line (LogApiResponse original_opcode seq_id data) s
                          else s)
                         \<lparr>pending_responses :=
                            (pending_responses s)(seq_id \<mapsto> EventEntry True data original_opcode)\<rparr>
                     | Some (FutureEntry original_opcode) \<Rightarrow>
                         (if original_opcode \<noteq> HEARTBEAT
                          then log_line (LogApiResponse original_opcode seq_id data) s
                          else s)
                         \<lparr>pending_responses := (pending_responses s)(seq_id := None),
                          futures := (futures s)(seq_id \<mapsto> data)\<rparr>))
              else if py_eq_int (dict_get kvs ''cmd'') 0 then s\<lparr>events := events s @ [data]\<rparr>
              else if py_eq_int (dict_get kvs ''cmd'') 3 then log_line (LogApiError data) s
              else log_line (LogUnexpected data) s)
         | _ \<Rightarrow> log_line LogProcessingError s))"

section \<open>Writing to the socket\<close>

text \<open>The envelope \<^verbatim>\<open>{"ver": 11, "cmd": 0, "seq": seq_id, "opcode": opcode, "payload": payload}\<close>.\<close>

definition make_command :: "int \<Rightarrow> int \<Rightarrow> json \<Rightarrow> json" where
  "make_command seq_id opcode payload =
     JObj [(''ver'', JInt 11), (''cmd'', JInt 0), (''seq'', JInt seq_id),
           (''opcode'', JInt opcode), (''payload'', payload)]"

text \<open>
  \<^verbatim>\<open>self.ioloop.add_callback(self.ws.write_message, frame)\<close>. Reading
  \<^verbatim>\<open>self.ws.write_message\<close> raises \<^verbatim>\<open>AttributeError\<close> when \<^verbatim>\<open>self.ws\<close> is
  \<^verbatim>\<open>None\<close>. Otherwise the call is only put in the loop's queue and
  \<^verbatim>\<open>add_callback\<close> returns: nothing is written yet, and no error of the write can
  reach the caller of \<^verbatim>\<open>add_callback\<close>.
\<close>

definition add_write_callback :: "json \<Rightarrow> client \<Rightarrow> error + client" where
  "add_write_callback frame s =
     (case ws s of
        None \<Rightarrow> Inl AttributeError
      | Some c \<Rightarrow> Inr (s\<lparr>callbacks := callbacks s @ [frame]\<rparr>))"

text \<open>
  The loop running one queued \<^verbatim>\<open>write_message\<close> call. On a closed connection
  \<^verbatim>\<open>write_message\<close> raises \<^verbatim>\<open>WebSocketClosedError\<close>; the loop catches what a
  callback raises and logs it. The model writes to the client's current socket.
\<close>

definition run_write :: "json \<Rightarrow> client \<Rightarrow> client" where
  "run_write frame s =
     (if ws s = Some OpenSocket then s\<lparr>sent := sent s @ [frame]\<rparr>
      else log_line LogCallbackException s)"

definition run_callbacks :: "client \<Rightarrow> client" where
  "run_callbacks s = fold run_write (callbacks s) (s\<lparr>callbacks := []\<rparr>)"

section \<open>Heartbeat\<close>

text \<open>
  \<^verbatim>\<open>_send_heartbeat\<close>, the body of the periodic callback. The arguments of
  \<^verbatim>\<open>add_callback\<close> are evaluated from the left: \<^verbatim>\<open>self.ws.write_message\<close> first,
  then the frame, which takes the next sequence number. The \<^verbatim>\<open>try\<close> block holds the
  \<^verbatim>\<open>add_callback\<close> call only, so the handler for \<^verbatim>\<open>WebSocketClosedError\<close> is
  entered by nothing the block does; the handler for any other exception is entered when
  \<^verbatim>\<open>self.ws\<close> is \<^verbatim>\<open>None\<close>, and marks the client as not running.
\<close>

definition heartbeat_frame :: "int \<Rightarrow> json" where
  "heartbeat_frame seq_id = make_command seq_id HEARTBEAT (JObj [(''interactive'', JBool False)])"

definition send_heartbeat :: "client \<Rightarrow> client" where
  "send_heartbeat s =
     (if \<not> is_running s then s
      else
        (case ws s of
           None \<Rightarrow> (log_line LogHeartbeatError s)\<lparr>is_running := False\<rparr>
         | Some c \<Rightarrow>
             s\<lparr>seq_counter := seq_counter s + 1,
               callbacks := callbacks s @ [heartbeat_frame (seq_counter s)]\<rparr>))"

section \<open>Waiting for a response\<close>

text \<open>
  What the loop thread does while a caller waits: it hands an inbound frame to
  \<^verbatim>\<open>_process_message\<close>, runs the queued writes, or fires the heartbeat. A schedule
  lists such steps, each with the seconds that pass before it.
\<close>

datatype loop_event = Receive "json option" | RunCallbacks | HeartbeatTick

type_synonym schedule = "(nat \<times> loop_event) list"

fun loop_step :: "loop_event \<Rightarrow> client \<Rightarrow> client" where
  "loop_step (Receive message) s = process_message message s"
| "loop_step RunCallbacks s = run_callbacks s"
| "loop_step HeartbeatTick s = send_heartbeat s"

text \<open>
  Waiting with a timeout (\<^verbatim>\<open>event.wait(timeout)\<close>,
  \<^verbatim>\<open>tornado.gen.with_timeout\<close>): the wait ends as soon as the handle is complete, or
  when \<open>remaining\<close> seconds have passed. A step scheduled at or after the deadline is not
  taken; an empty schedule means nothing more happens before the deadline.
\<close>

fun wait_until :: "(client \<Rightarrow> bool) \<Rightarrow> nat \<Rightarrow> schedule \<Rightarrow> client \<Rightarrow> client" where
  "wait_until complete remaining [] s =
     (if complete s then s else s\<lparr>clock := clock s + remaining\<rparr>)"
| "wait_until complete remaining ((delay, ev) # rest) s =
     (if complete s then s
      else if delay < remaining
        then wait_until complete (remaining - delay) rest (loop_step ev (s\<lparr>clock := clock s + delay\<rparr>))
        else s\<lparr>clock := clock s + remaining\<rparr>)"

definition event_is_set :: "int \<Rightarrow> client \<Rightarrow> bool" where
  "event_is_set seq_id s =
     (case pending_responses s seq_id of
        Some (EventEntry flag resp opcode) \<Rightarrow> flag
      | _ \<Rightarrow> False)"

definition future_done :: "int \<Rightarrow> client \<Rightarrow> bool" where
  "future_done seq_id s = (futures s seq_id \<noteq> None)"

section \<open>Sending commands\<close>

text \<open>
  \<^verbatim>\<open>send_command(opcode, payload, wait_for_response, timeout)\<close>, called from any
  thread. The schedule is what the loop thread does during \<^verbatim>\<open>event.wait(timeout)\<close>.
  \<^verbatim>\<open>return None\<close> is \<open>Inr JNull\<close>.
\<close>

definition send_command ::
  "int \<Rightarrow> json \<Rightarrow> bool \<Rightarrow> nat \<Rightarrow> schedule \<Rightarrow> client \<Rightarrow> (error + json) \<times> client" where
  "send_command opcode payload wait_for_response timeout sched s =
     (if \<not> is_running s then (Inl ConnectionError, s)
      else
        let seq_id = seq_counter s;
            s1 = s\<lparr>seq_counter := seq_id + 1\<rparr>;
            command = make_command seq_id opcode payload
        in if \<not> wait_for_response then
             (case add_write_callback command s1 of
                Inl e \<Rightarrow> (Inl e, s1)
              | Inr s2 \<Rightarrow> (Inr JNull, s2))
           else
             let s2 = s1\<lparr>pending_responses :=
                          (pending_responses s1)(seq_id \<mapsto> EventEntry False JNull opcode),
                        registered := registered s1 @ [seq_id]\<rparr>
             in (case add_write_callback command s2 of
                   Inl e \<Rightarrow> (Inl e, s2)
                 | Inr s3 \<Rightarrow>
                    (let s4 = wait_until (event_is_set seq_id) timeout sched s3;
                         is_set = event_is_set seq_id s4;
                         pending_request = pending_responses s4 seq_id;
                         s5 = s4\<lparr>pending_responses := (pending_responses s4)(seq_id := None)\<rparr>
                     in if \<not> is_set then
                          (Inl (TimeoutError (RequestTimedOut opcode seq_id timeout)), s5)
                        else
                          (case pending_request of
                             None \<Rightarrow> (Inl RuntimeError, s5)
                           | Some (EventEntry flag resp original_opcode) \<Rightarrow> (Inr resp, s5)
                           | Some (FutureEntry original_opcode) \<Rightarrow> (Inr JNull, s5)))))"

text \<open>The default of the \<^verbatim>\<open>timeout\<close> parameter of both send functions.\<close>

definition default_timeout :: nat where
  "default_timeout = 10"

text \<open>
  \<^verbatim>\<open>send_command_async(opcode, payload, timeout)\<close>, a coroutine of the loop. The
  write is awaited in place: it raises \<^verbatim>\<open>WebSocketClosedError\<close> on a closed socket
  (\<^verbatim>\<open>AttributeError\<close> when there is none), and only \<^verbatim>\<open>tornado.gen.TimeoutError\<close>
  is handled, so after a failed write the entry stays in the table. The schedule is
  what else the loop does while the coroutine awaits the future.
\<close>

definition send_command_async ::
  "int \<Rightarrow> json \<Rightarrow> nat \<Rightarrow> schedule \<Rightarrow> client \<Rightarrow> (error + json) \<times> client" where
  "send_command_async opcode payload timeout sched s =
     (if \<not> is_running s then (Inl ConnectionError, s)
      else
        let seq_id = seq_counter s;
            s1 = s\<lparr>seq_counter := seq_id + 1\<rparr>;
            command = make_command seq_id opcode payload;
            s2 = s1\<lparr>pending_responses := (pending_responses s1)(seq_id \<mapsto> FutureEntry opcode),
                    futures := (futures s1)(seq_id := None),
                    registered := registered s1 @ [seq_id]\<rparr>
        in (case ws s2 of
              None \<Rightarrow> (Inl AttributeError, s2)
            | Some ClosedSocket \<Rightarrow> (Inl WebSocketClosedError, s2)
            | Some OpenSocket \<Rightarrow>
               (let s3 = s2\<lparr>sent := sent s2 @ [command]\<rparr>;
                    s4 = wait_until (future_done seq_id) timeout sched s3
                in (case futures s4 seq_id of
                      Some response \<Rightarrow> (Inr response, s4)
                    | None \<Rightarrow>
                       (Inl (TimeoutError (AsyncRequestTimedOut opcode seq_id)),
                        s4\<lparr>pending_responses := (pending_responses s4)(seq_id := None)\<rparr>)))))"

section \<open>Handshake and authentication\<close>

definition user_agent :: json where
  "user_agent = JObj
     [(''deviceType'', JStr ''WEB''), (''locale'', JStr ''ru''), (''deviceLocale'', JStr ''ru''),
      (''osVersion'', JStr ''Windows''), (''deviceName'', JStr ''Firefox''),
      (''headerUserAgent'',
         JStr ''Mozilla/5.0 (Windows NT 10.0; Win64; x64; rv:141.0) Gecko/20100101 Firefox/141.0''),
      (''appVersion'', JStr ''25.7.13''), (''screen'', JStr ''1080x1920 1.0x''),
      (''timezone'', JStr ''Asia/Novosibirsk'')]"

text \<open>\<^verbatim>\<open>_handshake_async\<close>: one deferred command with the default timeout.\<close>

definition handshake_async :: "schedule \<Rightarrow> client \<Rightarrow> (error + json) \<times> client" where
  "handshake_async sched s =
     send_command_async HANDSHAKE
       (JObj [(''userAgent'', user_agent), (''deviceId'', JStr ''asd'')]) default_timeout sched s"

text \<open>
  Python's \<^verbatim>\<open>x.get(k, d)\<close>, \<^verbatim>\<open>x[k]\<close> with a string key, \<^verbatim>\<open>x[0]\<close> and
  \<^verbatim>\<open>for item in x\<close> on a decoded value, with the exception each raises on a value
  of the wrong kind.
\<close>

definition py_get_default :: "json \<Rightarrow> string \<Rightarrow> json \<Rightarrow> error + json" where
  "py_get_default x k d =
     (case x of
        JObj kvs \<Rightarrow> Inr (case map_of kvs k of None \<Rightarrow> d | Some v \<Rightarrow> v)
      | _ \<Rightarrow> Inl AttributeError)"

definition py_item :: "json \<Rightarrow> string \<Rightarrow> error + json" where
  "py_item x k =
     (case x of
        JObj kvs \<Rightarrow> (case map_of kvs k of None \<Rightarrow> Inl KeyError | Some v \<Rightarrow> Inr v)
      | _ \<Rightarrow> Inl TypeError)"

definition py_first :: "json \<Rightarrow> error + json" where
  "py_first x =
     (case x of
        JList vs \<Rightarrow> (case vs of [] \<Rightarrow> Inl IndexError | v # rest \<Rightarrow> Inr v)
      | JStr cs \<Rightarrow> (case cs of [] \<Rightarrow> Inl IndexError | c # rest \<Rightarrow> Inr (JStr [c]))
      | JObj kvs \<Rightarrow> Inl KeyError
      | _ \<Rightarrow> Inl TypeError)"

definition py_iter :: "json \<Rightarrow> error + json list" where
  "py_iter x =
     (case x of
        JList vs \<Rightarrow> Inr vs
      | JStr cs \<Rightarrow> Inr (map (\<lambda>c. JStr [c]) cs)
      | JObj kvs \<Rightarrow> Inr (map (\<lambda>kv. JStr (fst kv)) kvs)
      | _ \<Rightarrow> Inl TypeError)"

text \<open>\<^verbatim>\<open>response_payload['profile']['contact']\<close>, after the log line has read
  \<^verbatim>\<open>['names'][0]['name']\<close> of it.\<close>

definition auth_contact :: "json \<Rightarrow> error + json" where
  "auth_contact response_payload =
     (case py_item response_payload ''profile'' of
        Inl e \<Rightarrow> Inl e
      | Inr profile \<Rightarrow>
         (case py_item profile ''contact'' of
            Inl e \<Rightarrow> Inl e
          | Inr contact \<Rightarrow>
             (case py_item contact ''names'' of
                Inl e \<Rightarrow> Inl e
              | Inr names \<Rightarrow>
                 (case py_first names of
                    Inl e \<Rightarrow> Inl e
                  | Inr first_name \<Rightarrow>
                     (case py_item first_name ''name'' of
                        Inl e \<Rightarrow> Inl e
                      | Inr name \<Rightarrow> Inr contact)))))"

text \<open>
  The loop over \<^verbatim>\<open>response_payload['chats']\<close>: each item is copied without its
  \<^verbatim>\<open>'id'\<close> and stored under the id. The source keys the dict by \<^verbatim>\<open>str(id)\<close>; the
  model keeps the id as it is.
\<close>

fun auth_chats :: "json list \<Rightarrow> (json \<rightharpoonup> json) \<Rightarrow> error + (json \<rightharpoonup> json)" where
  "auth_chats [] acc = Inr acc"
| "auth_chats (item # items) acc =
     (case item of
        JObj kvs \<Rightarrow>
          (case map_of kvs ''id'' of
             None \<Rightarrow> Inl KeyError
           | Some item_id \<Rightarrow>
               auth_chats items (acc(item_id \<mapsto> JObj (filter (\<lambda>kv. fst kv \<noteq> ''id'') kvs))))
      | _ \<Rightarrow> Inl AttributeError)"

definition auth_payload :: "string \<Rightarrow> json" where
  "auth_payload tok = JObj
     [(''interactive'', JBool True), (''token'', JStr tok), (''chatsSync'', JInt 0),
      (''contactsSync'', JInt 0), (''presenceSync'', JInt 0), (''draftsSync'', JInt 0),
      (''chatsCount'', JInt 50)]"

text \<open>
  What \<^verbatim>\<open>_authenticate_async\<close> does with the response: it raises
  \<^verbatim>\<open>ValueError\<close> on a truthy \<^verbatim>\<open>error\<close>, sets \<^verbatim>\<open>self.user\<close>, then builds and
  sets \<^verbatim>\<open>self.chats\<close>.
\<close>

definition auth_chat_dict :: "json \<Rightarrow> error + (json \<rightharpoonup> json)" where
  "auth_chat_dict response_payload =
     (case py_item response_payload ''chats'' of
        Inl e \<Rightarrow> Inr Map.empty
      | Inr chat_items \<Rightarrow>
         (case py_iter chat_items of
            Inl e \<Rightarrow> Inl e
          | Inr items \<Rightarrow> auth_chats items Map.empty))"

definition auth_store :: "json \<Rightarrow> client \<Rightarrow> (error + unit) \<times> client" where
  "auth_store response_payload s =
     (case auth_contact response_payload of
        Inl e \<Rightarrow> (Inl e, s)
      | Inr contact \<Rightarrow>
         (case auth_chat_dict response_payload of
            Inl e \<Rightarrow> (Inl e, s\<lparr>user := contact\<rparr>)
          | Inr new_chats \<Rightarrow> (Inr (), s\<lparr>user := contact, chats := new_chats\<rparr>)))"

definition auth_response :: "json \<Rightarrow> client \<Rightarrow> (error + unit) \<times> client" where
  "auth_response response s =
     (case py_get_default response ''payload'' (JObj []) of
        Inl e \<Rightarrow> (Inl e, s)
      | Inr response_payload \<Rightarrow>
         (case py_get_default response_payload ''error'' JNull of
            Inl e \<Rightarrow> (Inl e, s)
          | Inr err \<Rightarrow>
             (if py_truthy err then (Inl ValueError, s)
              else auth_store response_payload s)))"

definition authenticate_async :: "schedule \<Rightarrow> client \<Rightarrow> (error + unit) \<times> client" where
  "authenticate_async sched s =
     (case token s of
        None \<Rightarrow> (Inr (), log_line LogNoToken s)
      | Some tok \<Rightarrow>
         (case send_command_async AUTHENTICATE (auth_payload tok) default_timeout sched s of
            (Inl e, s1) \<Rightarrow> (Inl e, s1)
          | (Inr response, s1) \<Rightarrow> auth_response response s1))"

section \<open>Connecting and reconnecting\<close>

text \<open>
  What the outside does during one connection attempt: how long
  \<^verbatim>\<open>websocket_connect\<close> takes and whether it returns a connection or raises, and the
  loop's schedule during the handshake, during the authentication and during each
  resubscription.
\<close>

datatype attempt = Attempt nat bool schedule schedule "schedule list"

fun connect_time :: "attempt \<Rightarrow> nat" where
  "connect_time (Attempt t ok hs au rs) = t"

fun connect_ok :: "attempt \<Rightarrow> bool" where
  "connect_ok (Attempt t ok hs au rs) = ok"

fun handshake_io :: "attempt \<Rightarrow> schedule" where
  "handshake_io (Attempt t ok hs au rs) = hs"

fun auth_io :: "attempt \<Rightarrow> schedule" where
  "auth_io (Attempt t ok hs au rs) = au"

fun resub_io :: "attempt \<Rightarrow> schedule list" where
  "resub_io (Attempt t ok hs au rs) = rs"

text \<open>
  The replay loop of \<^verbatim>\<open>_reconnect_async\<close>: one deferred subscribe command per
  member, each in its own \<^verbatim>\<open>try\<close>; a failure is logged and the loop goes on. A
  member without a schedule of its own gets the empty one.
\<close>

fun resubscribe :: "int list \<Rightarrow> schedule list \<Rightarrow> client \<Rightarrow> client" where
  "resubscribe [] ios s = s"
| "resubscribe (chat_id # rest) ios s =
     (case send_command_async SUBSCRIBE_TO_CHAT
             (JObj [(''chatId'', JInt chat_id), (''subscribe'', JBool True)])
             default_timeout (case ios of [] \<Rightarrow> [] | io # others \<Rightarrow> io) s of
        (Inl e, s1) \<Rightarrow> resubscribe rest (tl ios) (log_line (LogResubscribeFailed chat_id e) s1)
      | (Inr response, s1) \<Rightarrow> resubscribe rest (tl ios) s1)"

definition heartbeat_stop :: "client \<Rightarrow> client" where
  "heartbeat_stop s =
     (case heartbeat_callback s of
        None \<Rightarrow> s
      | Some (PeriodicCallback ms started) \<Rightarrow>
          s\<lparr>heartbeat_callback := Some (PeriodicCallback ms False)\<rparr>)"

definition heartbeat_start :: "client \<Rightarrow> client" where
  "heartbeat_start s =
     (case heartbeat_callback s of
        None \<Rightarrow> s
      | Some (PeriodicCallback ms started) \<Rightarrow>
          s\<lparr>heartbeat_callback := Some (PeriodicCallback ms True)\<rparr>)"

definition ws_close :: "client \<Rightarrow> client" where
  "ws_close s = (case ws s of None \<Rightarrow> s | Some c \<Rightarrow> s\<lparr>ws := Some ClosedSocket\<rparr>)"

text \<open>
  The \<^verbatim>\<open>try\<close> block of the loop of \<^verbatim>\<open>_reconnect_async\<close>: connect, mark the
  client running, handshake, authenticate when there is a token, start the heartbeat
  again, replay the subscriptions. \<open>Inl\<close> is the exception that leaves the block.
  The listener the block starts on the new connection is what takes the \<open>Receive\<close>
  steps of the schedules.
\<close>

definition reconnect_attempt :: "attempt \<Rightarrow> client \<Rightarrow> (error + unit) \<times> client" where
  "reconnect_attempt a s =
     (let s0 = s\<lparr>clock := clock s + connect_time a\<rparr> in
      if \<not> connect_ok a then (Inl OtherError, s0)
      else
        (case handshake_async (handshake_io a) (s0\<lparr>ws := Some OpenSocket, is_running := True\<rparr>) of
           (Inl e, s1) \<Rightarrow> (Inl e, s1)
         | (Inr response, s1) \<Rightarrow>
            (case (if token s1 \<noteq> None then authenticate_async (auth_io a) s1 else (Inr (), s1)) of
               (Inl e, s2) \<Rightarrow> (Inl e, s2)
             | (Inr u, s2) \<Rightarrow>
                (Inr (), resubscribe (subscribed_chats s2) (resub_io a) (heartbeat_start s2)))))"

definition max_delay :: nat where
  "max_delay = 60"

text \<open>
  The \<^verbatim>\<open>while\<close> loop of \<^verbatim>\<open>_reconnect_async\<close>, with the local
  \<^verbatim>\<open>reconnect_delay\<close> as its first argument. The loop has no bound of its own; the
  list gives the attempts the run is followed for.
\<close>

fun reconnect_loop :: "nat \<Rightarrow> attempt list \<Rightarrow> client \<Rightarrow> client" where
  "reconnect_loop reconnect_delay [] s = s"
| "reconnect_loop reconnect_delay (a # rest) s =
     (if should_reconnect s \<and> auto_reconnect s then
        (case reconnect_attempt a
                (s\<lparr>sleeps := sleeps s @ [reconnect_delay], clock := clock s + reconnect_delay\<rparr>) of
           (Inr u, s1) \<Rightarrow> s1
         | (Inl e, s1) \<Rightarrow>
             reconnect_loop (min (reconnect_delay * 2) max_delay) rest
               (log_line (LogReconnectFailed e) s1))
      else s)"

text \<open>\<^verbatim>\<open>_reconnect_async\<close>: mark the client not running, stop the heartbeat, close
  the stale socket, then loop from a delay of 2 seconds.\<close>

definition reconnect_async :: "attempt list \<Rightarrow> client \<Rightarrow> client" where
  "reconnect_async script s =
     reconnect_loop 2 script (ws_close (heartbeat_stop (s\<lparr>is_running := False\<rparr>)))"

text \<open>
  \<^verbatim>\<open>_connect_and_run\<close>: the first connection, tried again 5 seconds after each
  failure while \<^verbatim>\<open>_should_reconnect\<close> holds. Success creates and starts the
  heartbeat with a period of 3000 ms and sets \<^verbatim>\<open>ready_event\<close>.
\<close>

definition connect_attempt :: "attempt \<Rightarrow> client \<Rightarrow> (error + unit) \<times> client" where
  "connect_attempt a s =
     (let s0 = s\<lparr>clock := clock s + connect_time a\<rparr> in
      if \<not> connect_ok a then (Inl OtherError, s0)
      else
        (case handshake_async (handshake_io a) (s0\<lparr>ws := Some OpenSocket, is_running := True\<rparr>) of
           (Inl e, s1) \<Rightarrow> (Inl e, s1)
         | (Inr response, s1) \<Rightarrow>
            (case (if token s1 \<noteq> None then authenticate_async (auth_io a) s1 else (Inr (), s1)) of
               (Inl e, s2) \<Rightarrow> (Inl e, s2)
             | (Inr u, s2) \<Rightarrow>
                (Inr (), s2\<lparr>heartbeat_callback := Some (PeriodicCallback 3000 True),
                             ready_event := True\<rparr>))))"

fun connect_and_run :: "attempt list \<Rightarrow> client \<Rightarrow> client" where
  "connect_and_run [] s = s"
| "connect_and_run (a # rest) s =
     (if should_reconnect s then
        (case connect_attempt a s of
           (Inr u, s1) \<Rightarrow> s1
         | (Inl e, s1) \<Rightarrow>
             connect_and_run rest
               ((log_line (LogConnectionFailed e) s1)\<lparr>sleeps := sleeps s1 @ [5], clock := clock s1 + 5\<rparr>))
      else s)"

section \<open>The read path\<close>

text \<open>What \<^verbatim>\<open>self.ws.read_message()\<close> gives: a message, \<^verbatim>\<open>None\<close> when the
  connection is closed, or an exception.\<close>

datatype read_result = Message "json option" | ReadNone | ReadClosedError | ReadError

text \<open>
  \<^verbatim>\<open>_listener_loop_async\<close>: the reads of one run of the loop, and the attempts of the
  reconnect it may start. When the reads run out the coroutine is still waiting in
  \<^verbatim>\<open>read_message\<close>.
\<close>

fun listener_loop_async :: "read_result list \<Rightarrow> attempt list \<Rightarrow> client \<Rightarrow> client" where
  "listener_loop_async [] script s = s"
| "listener_loop_async (r # reads) script s =
     (if \<not> is_running s then s
      else
        (case r of
           Message message \<Rightarrow> listener_loop_async reads script (process_message message s)
         | ReadNone \<Rightarrow>
             (if should_reconnect s \<and> auto_reconnect s
              then reconnect_async script (log_line LogServerClosed s) else s)
         | ReadClosedError \<Rightarrow>
             (if should_reconnect s \<and> auto_reconnect s
              then reconnect_async script (log_line LogListenerClosed s) else s)
         | ReadError \<Rightarrow>
             (if should_reconnect s \<and> auto_reconnect s
              then reconnect_async script (log_line LogListenerError s) else s)))"

section \<open>Construction and shutdown\<close>

text \<open>\<^verbatim>\<open>_shutdown_async\<close> and \<^verbatim>\<open>close\<close>.\<close>

definition shutdown_async :: "client \<Rightarrow> client" where
  "shutdown_async s = ws_close (heartbeat_stop s)"

definition close :: "client \<Rightarrow> client" where
  "close s =
     (if \<not> is_running s \<and> \<not> ioloop s then s
      else
        (let s1 = s\<lparr>should_reconnect := False, is_running := False\<rparr>;
             s2 = (if ioloop s1 then shutdown_async s1 else s1)
         in s2\<lparr>ioloop := False\<rparr>))"

text \<open>The fields as \<^verbatim>\<open>__init__\<close> sets them, with the loop thread started.\<close>

definition new_client :: "string option \<Rightarrow> bool \<Rightarrow> client" where
  "new_client auth_token auto =
     \<lparr>token = auth_token, auto_reconnect = auto, is_running = False, should_reconnect = True,
      seq_counter = 0, pending_responses = Map.empty, ready_event = False, ws = None,
      heartbeat_callback = None, subscribed_chats = [], user = JNull, chats = Map.empty,
      callbacks = [], sent = [], events = [], futures = Map.empty, logged = [], sleeps = [],
      registered = [], clock = 0, ioloop = True\<rparr>"

definition connect_bound :: nat where
  "connect_bound = 20"

text \<open>
  \<^verbatim>\<open>MaxAPI(auth_token, on_event, auto_reconnect)\<close>: the loop thread runs
  \<^verbatim>\<open>_connect_and_run\<close> while the constructor waits on \<^verbatim>\<open>ready_event\<close> for 20
  seconds. The wait succeeds when the event is set before the deadline; otherwise the
  constructor calls \<^verbatim>\<open>close\<close> and raises \<^verbatim>\<open>TimeoutError\<close>. The second component
  is the time at which the wait ends; what \<^verbatim>\<open>close\<close> spends joining the loop thread
  after a failed wait is not counted in it.
\<close>

definition init :: "string option \<Rightarrow> bool \<Rightarrow> attempt list \<Rightarrow> (error + client) \<times> nat" where
  "init auth_token auto script =
     (let s = connect_and_run script (new_client auth_token auto) in
      if ready_event s \<and> clock s < connect_bound then (Inr s, clock s)
      else (Inl (TimeoutError ConnectTimedOut), connect_bound))"

section \<open>Media resolution\<close>

text \<open>
  The reply of \<^verbatim>\<open>requests.get\<close> as the two methods read it: whether
  \<^verbatim>\<open>raise_for_status\<close> passes, the \<^verbatim>\<open>content-type\<close> and \<^verbatim>\<open>X-File-Name\<close>
  headers, and the bytes of the body. The fetch itself is a parameter: it may raise.
\<close>

record http_response =
  status_ok :: bool
  content_type :: "string option"
  x_file_name :: "string option"
  content :: string

type_synonym fetcher = "json \<Rightarrow> error + http_response"

text \<open>Python's \<^verbatim>\<open>needle in text\<close> on strings.\<close>

fun py_in :: "string \<Rightarrow> string \<Rightarrow> bool" where
  "py_in needle [] = (needle = [])"
| "py_in needle (c # cs) = (take (length needle) (c # cs) = needle \<or> py_in needle cs)"

text \<open>Python's \<^verbatim>\<open>a or b\<close>.\<close>

definition py_or :: "json \<Rightarrow> json \<Rightarrow> json" where
  "py_or a b = (if py_truthy a then a else b)"

text \<open>
  \<^verbatim>\<open>get_video\<close> from the second line on: \<open>video_info\<close> is what
  \<^verbatim>\<open>send_command(83, ...)\<close> returned.
\<close>

definition video_from_info :: "json \<Rightarrow> fetcher \<Rightarrow> error + string option" where
  "video_from_info video_info fetch =
     (case py_item video_info ''payload'' of
        Inl e \<Rightarrow> Inl e
      | Inr info \<Rightarrow>
         (case py_get_default info ''MP4_1080'' JNull of
            Inl e \<Rightarrow> Inl e
          | Inr url1080 \<Rightarrow>
             (case py_get_default info ''MP4_720'' JNull of
                Inl e \<Rightarrow> Inl e
              | Inr url720 \<Rightarrow>
                 (if \<not> py_truthy (py_or url1080 url720) then Inr None
                  else
                    (case fetch (py_or url1080 url720) of
                       Inl e \<Rightarrow> Inl e
                     | Inr r \<Rightarrow>
                        (if \<not> status_ok r then Inl HTTPError
                         else
                           (case content_type r of
                              None \<Rightarrow> Inl TypeError
                            | Some ct \<Rightarrow>
                               (if \<not> py_in ''video'' ct then Inr None
                                else Inr (Some (content r))))))))))"

definition token_json :: "client \<Rightarrow> json" where
  "token_json s = (case token s of None \<Rightarrow> JNull | Some tok \<Rightarrow> JStr tok)"

text \<open>\<^verbatim>\<open>get_video(id)\<close>; \<open>video_id\<close> is \<^verbatim>\<open>int(id)\<close>.\<close>

definition get_video ::
  "int \<Rightarrow> schedule \<Rightarrow> fetcher \<Rightarrow> client \<Rightarrow> (error + string option) \<times> client" where
  "get_video video_id sched fetch s =
     (case send_command 83 (JObj [(''videoId'', JInt video_id), (''token'', token_json s)])
             True default_timeout sched s of
        (Inl e, s1) \<Rightarrow> (Inl e, s1)
      | (Inr video_info, s1) \<Rightarrow> (video_from_info video_info fetch, s1))"

text \<open>\<^verbatim>\<open>get_file\<close> from the second line on.\<close>

definition file_from_info :: "json \<Rightarrow> fetcher \<Rightarrow> error + (string \<times> string) option" where
  "file_from_info file_info fetch =
     (case py_item file_info ''payload'' of
        Inl e \<Rightarrow> Inl e
      | Inr info \<Rightarrow>
         (case py_get_default info ''url'' JNull of
            Inl e \<Rightarrow> Inl e
          | Inr url \<Rightarrow>
             (if \<not> py_truthy url then Inr None
              else
                (case fetch url of
                   Inl e \<Rightarrow> Inl e
                 | Inr r \<Rightarrow>
                    (if \<not> status_ok r then Inl HTTPError
                     else
                       Inr (Some (content r,
                                  (case x_file_name r of
                                     None \<Rightarrow> ''downloaded_file''
                                   | Some n \<Rightarrow> (if n = [] then ''downloaded_file'' else n)))))))))"

text \<open>\<^verbatim>\<open>get_file(id, chat_id, msg_id)\<close>; the ids are \<^verbatim>\<open>int(id)\<close>,
  \<^verbatim>\<open>int(chat_id)\<close> and \<^verbatim>\<open>str(msg_id)\<close>.\<close>

definition get_file ::
  "int \<Rightarrow> int \<Rightarrow> string \<Rightarrow> schedule \<Rightarrow> fetcher \<Rightarrow> client
     \<Rightarrow> (error + (string \<times> string) option) \<times> client" where
  "get_file file_id chat_id msg_id sched fetch s =
     (case send_command 88
             (JObj [(''fileId'', JInt file_id), (''chatId'', JInt chat_id),
                    (''messageId'', JStr msg_id)])
             True default_timeout sched s of
        (Inl e, s1) \<Rightarrow> (Inl e, s1)
      | (Inr file_info, s1) \<Rightarrow> (file_from_info file_info fetch, s1))"

section \<open>Subscriptions\<close>

text \<open>\<^verbatim>\<open>subscribe_to_chat(chat_id, subscribe)\<close>: a blocking command; the set changes only
  after the command returned.\<close>

definition subscribe_to_chat ::
  "int \<Rightarrow> bool \<Rightarrow> schedule \<Rightarrow> client \<Rightarrow> (error + json) \<times> client" where
  "subscribe_to_chat chat_id subscribe sched s =
     (case send_command SUBSCRIBE_TO_CHAT
             (JObj [(''chatId'', JInt chat_id), (''subscribe'', JBool subscribe)])
             True default_timeout sched s of
        (Inl e, s1) \<Rightarrow> (Inl e, s1)
      | (Inr response, s1) \<Rightarrow>
          (Inr response,
           s1\<lparr>subscribed_chats :=
                (if subscribe
                 then (if chat_id \<in> set (subscribed_chats s1) then subscribed_chats s1
                       else subscribed_chats s1 @ [chat_id])
                 else removeAll chat_id (subscribed_chats s1))\<rparr>))"

section \<open>A client's lifetime\<close>

text \<open>
  What happens to one client object between its creation and its end: the first
  connection, calls from caller threads, and the work of the loop thread (frames,
  queued writes, heartbeat ticks, runs of the listener with the reconnects they start).
\<close>

datatype operation =
    Connect "attempt list"
  | Send int json bool nat schedule
  | SendAsync int json nat schedule
  | Subscribe int bool schedule
  | Loop loop_event
  | Listen "read_result list" "attempt list"
  | Close

fun run_op :: "operation \<Rightarrow> client \<Rightarrow> client" where
  "run_op (Connect script) s = connect_and_run script s"
| "run_op (Send opcode payload wait_for_response timeout sched) s =
     snd (send_command opcode payload wait_for_response timeout sched s)"
| "run_op (SendAsync opcode payload timeout sched) s =
     snd (send_command_async opcode payload timeout sched s)"
| "run_op (Subscribe chat_id subscribe sched) s = snd (subscribe_to_chat chat_id subscribe sched s)"
| "run_op (Loop ev) s = loop_step ev s"
| "run_op (Listen reads script) s = listener_loop_async reads script s"
| "run_op Close s = close s"

fun run_ops :: "operation list \<Rightarrow> client \<Rightarrow> client" where
  "run_ops [] s = s"
| "run_ops (x # xs) s = run_ops xs (run_op x s)"

section \<open>Notions used in the statements\<close>

text \<open>A step of the loop that is a response frame (\<^verbatim>\<open>cmd\<close> equal to 1) whose
  \<^verbatim>\<open>seq\<close> addresses the key \<open>k\<close> of the pending table.\<close>

fun answers :: "int \<Rightarrow> loop_event \<Rightarrow> bool" where
  "answers k (Receive (Some (JObj kvs))) =
     (py_eq_int (dict_get kvs ''cmd'') 1 \<and> py_key (dict_get kvs ''seq'') = IntKey k)"
| "answers k ev = False"


text \<open>
  How the sequence counter, the log of stored keys and the pending table move from a
  state to a later one: the counter does not go down; the keys stored in between are
  increasing, at least the old counter and below the new one; and the table has no key
  that it did not have before or that was not stored in between.
\<close>

definition seq_extends :: "client \<Rightarrow> client \<Rightarrow> bool" where
  "seq_extends s s' =
     (seq_counter s \<le> seq_counter s' \<and>
      (\<exists>new. registered s' = registered s @ new \<and> sorted_wrt (<) new \<and>
             list_all (\<lambda>k. seq_counter s \<le> k \<and> k < seq_counter s') new \<and>
             dom (pending_responses s') \<subseteq> dom (pending_responses s) \<union> set new))"


section \<open>Example states and frames\<close>

text \<open>A connected client with a blocking request waiting at sequence id 7 and a
  deferred one at 8.\<close>

definition example_client :: client where
  "example_client =
     (new_client (Some ''secret'') True)
       \<lparr>is_running := True, seq_counter := 9, ready_event := True, ws := Some OpenSocket,
        heartbeat_callback := Some (PeriodicCallback 3000 True),
        pending_responses := [7 \<mapsto> EventEntry False JNull 49, 8 \<mapsto> FutureEntry 75],
        registered := [0, 1, 7, 8]\<rparr>"

definition example_frame :: "int \<Rightarrow> int \<Rightarrow> string \<Rightarrow> (string \<times> json) list" where
  "example_frame cmd seq_id body =
     [(''ver'', JInt 11), (''cmd'', JInt cmd), (''seq'', JInt seq_id), (''opcode'', JInt 49),
      (''payload'', JObj [(''text'', JStr body)])]"

text \<open>An attempt whose authentication is refused, then one that succeeds.\<close>

definition example_auth_frame :: "int \<Rightarrow> json \<Rightarrow> json" where
  "example_auth_frame seq_id payload =
     JObj [(''ver'', JInt 11), (''cmd'', JInt 1), (''seq'', JInt seq_id), (''opcode'', JInt 19),
           (''payload'', payload)]"

definition example_profile :: json where
  "example_profile =
     JObj [(''profile'', JObj [(''contact'',
             JObj [(''id'', JInt 42), (''names'', JList [JObj [(''name'', JStr ''Ann'')]])])]),
           (''chats'', JList [JObj [(''id'', JInt 12345), (''title'', JStr ''family'')]])]"

definition example_connect_script :: "attempt list" where
  "example_connect_script =
     [Attempt 1 True [(1, Receive (Some (JObj (example_frame 1 0 ''hello''))))]
        [(1, Receive (Some (example_auth_frame 1 (JObj [(''error'', JStr ''login.token'')]))))] [],
      Attempt 1 True [(1, Receive (Some (JObj (example_frame 1 2 ''hello''))))]
        [(1, Receive (Some (example_auth_frame 3 example_profile)))] []]"

text \<open>A fetcher that answers every URL with an HTML page, a response frame that carries
  a URL under a given key, and the example client after the server closed its socket.\<close>

definition example_fetch :: fetcher where
  "example_fetch url =
     Inr \<lparr>status_ok = True, content_type = Some ''text/html; charset=utf-8'',
          x_file_name = None, content = ''<html>not found</html>''\<rparr>"

definition example_media_frame :: "int \<Rightarrow> string \<Rightarrow> (string \<times> json) list" where
  "example_media_frame seq_id url_key =
     [(''ver'', JInt 11), (''cmd'', JInt 1), (''seq'', JInt seq_id), (''opcode'', JInt 88),
      (''payload'', JObj [(url_key, JStr ''https://files.example/f/1'')])]"

definition example_closed :: client where
  "example_closed = example_client\<lparr>ws := Some ClosedSocket\<rparr>"

text \<open>A lifetime: the first connection, a subscription, a blocking send that times out,
  a heartbeat tick, a listener run that reconnects, and a fire-and-forget send.\<close>

definition example_lifetime :: "operation list" where
  "example_lifetime =
     [Connect example_connect_script,
      Subscribe 12345 True [(1, Receive (Some (JObj (example_frame 1 4 ''subscribed''))))],
      Send 49 (JObj [(''chatId'', JInt 12345)]) True 10 [(2, Receive (Some (JObj (example_frame 0 4 ''push''))))],
      Loop HeartbeatTick,
      Listen [Message (Some (JObj (example_frame 0 0 ''push''))), ReadNone]
        [Attempt 1 False [] [] [],
         Attempt 1 True [(1, Receive (Some (JObj (example_frame 1 7 ''hello''))))]
           [(1, Receive (Some (example_auth_frame 8 example_profile)))]
           [[(1, Receive (Some (JObj (example_frame 1 9 ''subscribed''))))]]],
      Send 64 (JObj []) False 10 []]"

section \<open>Properties\<close>

subsection \<open>Demultiplexing\<close>



subsection \<open>Sending while not running\<close>

text \<open>
  C10. When the client is not running (never connected, reconnecting, or closed), a
  blocking send, a fire-and-forget send and a deferred send all raise
  \<^verbatim>\<open>ConnectionError\<close> and leave the whole state as it was: no sequence number is
  taken, nothing is queued for or written to the socket, and the pending table gets no
  entry. After \<^verbatim>\<open>close\<close> the client is not running.
\<close>

theorem send_not_running:
  "(\<not> is_running s \<longrightarrow>
      send_command opcode payload wait_for_response timeout sched s = (Inl ConnectionError, s)
      \<and> send_command_async opcode payload timeout sched s = (Inl ConnectionError, s))
   \<and> \<not> is_running (close s)"
  by (simp add: send_command_def send_command_async_def close_def Let_def shutdown_async_def
      ws_close_def heartbeat_stop_def split: option.splits periodic.splits)

theorem send_not_running_witness:
  "send_command 49 (JObj []) True 10 [] (new_client None True)
     = (Inl ConnectionError, new_client None True)
   \<and> send_command_async 6 (JObj []) 10 [] (close example_client)
     = (Inl ConnectionError, close example_client)"
proof -
  have a: "\<not> is_running (new_client None True)" by (simp add: new_client_def)
  have b: "\<not> is_running (close example_client)"
    using send_not_running [of example_client] by simp
  show ?thesis
    using send_not_running [of "new_client None True" 49 "JObj []" True 10 "[]"]
      send_not_running [of "close example_client" 6 "JObj []" _ 10 "[]"] a b
    by simp
qed

subsection \<open>What a step of the loop thread leaves alone\<close>

lemma fold_run_write_frame:
  "pending_responses (fold run_write fs s) = pending_responses s \<and>
   clock (fold run_write fs s) = clock s \<and> futures (fold run_write fs s) = futures s \<and>
   seq_counter (fold run_write fs s) = seq_counter s \<and>
   registered (fold run_write fs s) = registered s \<and> is_running (fold run_write fs s) = is_running s"
  by (induction fs arbitrary: s) (simp_all add: run_write_def log_line_def)

lemma run_callbacks_frame:
  "pending_responses (run_callbacks s) = pending_responses s \<and>
   clock (run_callbacks s) = clock s \<and> futures (run_callbacks s) = futures s \<and>
   seq_counter (run_callbacks s) = seq_counter s \<and>
   registered (run_callbacks s) = registered s \<and> is_running (run_callbacks s) = is_running s"
  by (simp add: run_callbacks_def fold_run_write_frame)

lemma send_heartbeat_frame:
  "pending_responses (send_heartbeat s) = pending_responses s \<and>
   clock (send_heartbeat s) = clock s \<and> futures (send_heartbeat s) = futures s \<and>
   registered (send_heartbeat s) = registered s"
  by (simp add: send_heartbeat_def log_line_def split: option.splits)

lemma process_message_frame:
  "clock (process_message m s) = clock s \<and> seq_counter (process_message m s) = seq_counter s \<and>
   registered (process_message m s) = registered s \<and>
   is_running (process_message m s) = is_running s"
  by (simp add: process_message_def log_line_def
      split: option.splits json.splits key.splits pending.splits)

lemma loop_step_clock: "clock (loop_step ev s) = clock s"
  by (cases ev) (simp_all add: process_message_frame run_callbacks_frame send_heartbeat_frame)

lemma process_message_other_key:
  "\<not> answers k (Receive m) \<Longrightarrow>
     pending_responses (process_message m s) k = pending_responses s k \<and>
     futures (process_message m s) k = futures s k"
proof (cases m)
  case None
  then show ?thesis by (simp add: process_message_def log_line_def)
next
  case (Some data)
  assume na: "\<not> answers k (Receive m)"
  show ?thesis
  proof (cases data)
    case (JObj kvs)
    with Some na show ?thesis
      by (auto simp: process_message_def log_line_def
          split: key.splits option.splits pending.splits)
  qed (simp_all add: Some process_message_def log_line_def)
qed

lemma loop_step_other_key:
  "\<not> answers k ev \<Longrightarrow>
     pending_responses (loop_step ev s) k = pending_responses s k \<and>
     futures (loop_step ev s) k = futures s k"
  by (cases ev) (simp_all add: process_message_other_key run_callbacks_frame send_heartbeat_frame)

lemma wait_event_unanswered:
  "list_all (\<lambda>p. \<not> answers k (snd p)) sched \<Longrightarrow> \<not> event_is_set k s \<Longrightarrow>
     pending_responses (wait_until (event_is_set k) r sched s) k = pending_responses s k \<and>
     clock (wait_until (event_is_set k) r sched s) = clock s + r"
proof (induction sched arbitrary: s r)
  case Nil
  then show ?case by simp
next
  case (Cons p sched)
  obtain d ev where p: "p = (d, ev)" by (cases p)
  let ?t = "loop_step ev (s\<lparr>clock := clock s + d\<rparr>)"
  from Cons.prems p have na: "\<not> answers k ev" and rest: "list_all (\<lambda>p. \<not> answers k (snd p)) sched"
    by simp_all
  have keep: "pending_responses ?t k = pending_responses s k"
    using loop_step_other_key [OF na, of "s\<lparr>clock := clock s + d\<rparr>"] by simp
  then have unset: "\<not> event_is_set k ?t" using Cons.prems(2) by (simp add: event_is_set_def)
  have ck: "clock ?t = clock s + d" by (simp add: loop_step_clock)
  show ?case
  proof (cases "d < r")
    case True
    from Cons.IH [OF rest unset, of "r - d"] keep ck True Cons.prems(2) p
    show ?thesis by simp
  next
    case False
    with Cons.prems(2) p show ?thesis by simp
  qed
qed

lemma wait_event_answered:
  "list_all (\<lambda>p. \<not> answers k (snd p)) pre \<Longrightarrow>
   answers k (Receive (Some (JObj kvs))) \<Longrightarrow>
   pending_responses s k = Some (EventEntry False r0 opcode) \<Longrightarrow>
   sum_list (map fst pre) + d < r \<Longrightarrow>
     pending_responses
       (wait_until (event_is_set k) r (pre @ (d, Receive (Some (JObj kvs))) # post) s) k
       = Some (EventEntry True (JObj kvs) opcode) \<and>
     clock (wait_until (event_is_set k) r (pre @ (d, Receive (Some (JObj kvs))) # post) s)
       = clock s + sum_list (map fst pre) + d"
proof (induction pre arbitrary: s r)
  case Nil
  let ?t = "process_message (Some (JObj kvs)) (s\<lparr>clock := clock s + d\<rparr>)"
  from Nil.prems have pk: "pending_responses ?t k = Some (EventEntry True (JObj kvs) opcode)"
    by (simp add: process_message_def log_line_def)
  then have set: "event_is_set k ?t" by (simp add: event_is_set_def)
  have unset: "\<not> event_is_set k s" using Nil.prems(3) by (simp add: event_is_set_def)
  have ck: "clock ?t = clock s + d" by (simp add: process_message_frame)
  have w: "wait_until (event_is_set k) (r - d) post ?t = ?t"
    using set by (cases post) auto
  from Nil.prems(4) unset w pk ck show ?case by simp
next
  case (Cons p pre)
  obtain d' ev where p: "p = (d', ev)" by (cases p)
  let ?t = "loop_step ev (s\<lparr>clock := clock s + d'\<rparr>)"
  from Cons.prems p have na: "\<not> answers k ev" and rest: "list_all (\<lambda>p. \<not> answers k (snd p)) pre"
    by simp_all
  have keep: "pending_responses ?t k = Some (EventEntry False r0 opcode)"
    using loop_step_other_key [OF na, of "s\<lparr>clock := clock s + d'\<rparr>"] Cons.prems(3) by simp
  have unset: "\<not> event_is_set k s" using Cons.prems(3) by (simp add: event_is_set_def)
  have ck: "clock ?t = clock s + d'" by (simp add: loop_step_clock)
  from Cons.prems(4) p have lt: "d' < r" and lt': "sum_list (map fst pre) + d < r - d'" by simp_all
  from Cons.IH [OF rest Cons.prems(2) keep lt'] unset lt ck p show ?case by simp
qed

subsection \<open>Blocking sends\<close>

lemma send_command_waiting:
  assumes "is_running s" "ws s \<noteq> None"
  shows "send_command opcode payload True timeout sched s =
    (let s3 = s\<lparr>seq_counter := seq_counter s + 1,
                 pending_responses := (pending_responses s)(seq_counter s \<mapsto> EventEntry False JNull opcode),
                 registered := registered s @ [seq_counter s],
                 callbacks := callbacks s @ [make_command (seq_counter s) opcode payload]\<rparr>;
         s4 = wait_until (event_is_set (seq_counter s)) timeout sched s3;
         s5 = s4\<lparr>pending_responses := (pending_responses s4)(seq_counter s := None)\<rparr>
     in if \<not> event_is_set (seq_counter s) s4
        then (Inl (TimeoutError (RequestTimedOut opcode (seq_counter s) timeout)), s5)
        else (case pending_responses s4 (seq_counter s) of
                None \<Rightarrow> (Inl RuntimeError, s5)
              | Some (EventEntry flag resp original_opcode) \<Rightarrow> (Inr resp, s5)
              | Some (FutureEntry original_opcode) \<Rightarrow> (Inr JNull, s5)))"
  using assms by (auto simp: send_command_def add_write_callback_def Let_def)

text \<open>
  C6. A blocking send on a running client registers its request under the next
  sequence id and waits. If no step of the loop during the wait is a response frame for
  that id, the call fails with \<^verbatim>\<open>TimeoutError\<close> (request timed out) exactly
  \<open>timeout\<close> seconds after it started. If a response for the id arrives before the
  deadline, the call returns that frame. Whatever the outcome, the pending table holds
  no entry for the id afterwards. The default timeout is 10 seconds.
\<close>

theorem blocking_send_timeout:
  assumes "is_running s" and "ws s \<noteq> None"
  shows
   "(list_all (\<lambda>p. \<not> answers (seq_counter s) (snd p)) sched \<longrightarrow>
       fst (send_command opcode payload True timeout sched s)
         = Inl (TimeoutError (RequestTimedOut opcode (seq_counter s) timeout))
       \<and> clock (snd (send_command opcode payload True timeout sched s)) = clock s + timeout)
    \<and> pending_responses (snd (send_command opcode payload True timeout sched s)) (seq_counter s)
        = None
    \<and> (list_all (\<lambda>p. \<not> answers (seq_counter s) (snd p)) pre \<and>
        answers (seq_counter s) (Receive (Some (JObj kvs))) \<and>
        sum_list (map fst pre) + d < timeout \<longrightarrow>
        fst (send_command opcode payload True timeout
               (pre @ (d, Receive (Some (JObj kvs))) # post) s) = Inr (JObj kvs))
    \<and> default_timeout = 10"
proof -
  let ?k = "seq_counter s"
  let ?s3 = "s\<lparr>seq_counter := seq_counter s + 1,
                 pending_responses := (pending_responses s)(seq_counter s \<mapsto> EventEntry False JNull opcode),
                 registered := registered s @ [seq_counter s],
                 callbacks := callbacks s @ [make_command (seq_counter s) opcode payload]\<rparr>"
  have unset: "\<not> event_is_set ?k ?s3" by (simp add: event_is_set_def)
  have entry: "pending_responses ?s3 ?k = Some (EventEntry False JNull opcode)" by simp
  have a: "fst (send_command opcode payload True timeout sched s)
         = Inl (TimeoutError (RequestTimedOut opcode ?k timeout))
       \<and> clock (snd (send_command opcode payload True timeout sched s)) = clock s + timeout"
    if na: "list_all (\<lambda>p. \<not> answers ?k (snd p)) sched"
  proof -
    from wait_event_unanswered [OF na unset, of timeout]
    have w: "pending_responses (wait_until (event_is_set ?k) timeout sched ?s3) ?k
               = Some (EventEntry False JNull opcode)"
      "clock (wait_until (event_is_set ?k) timeout sched ?s3) = clock s + timeout"
      by simp_all
    from w(1) have "\<not> event_is_set ?k (wait_until (event_is_set ?k) timeout sched ?s3)"
      by (simp add: event_is_set_def)
    with w(2) show ?thesis
      by (simp add: send_command_waiting [OF assms] Let_def)
  qed
  have b: "pending_responses (snd (send_command opcode payload True timeout sched s)) ?k = None"
    by (simp add: send_command_waiting [OF assms] Let_def split: option.splits pending.splits)
  have c: "fst (send_command opcode payload True timeout
               (pre @ (d, Receive (Some (JObj kvs))) # post) s) = Inr (JObj kvs)"
    if na: "list_all (\<lambda>p. \<not> answers ?k (snd p)) pre"
      and an: "answers ?k (Receive (Some (JObj kvs)))"
      and lt: "sum_list (map fst pre) + d < timeout"
  proof -
    from wait_event_answered [OF na an entry lt, of post]
    have w: "pending_responses
        (wait_until (event_is_set ?k) timeout (pre @ (d, Receive (Some (JObj kvs))) # post) ?s3) ?k
        = Some (EventEntry True (JObj kvs) opcode)" by simp
    then have "event_is_set ?k
        (wait_until (event_is_set ?k) timeout (pre @ (d, Receive (Some (JObj kvs))) # post) ?s3)"
      by (simp add: event_is_set_def)
    with w show ?thesis
      by (simp add: send_command_waiting [OF assms] Let_def)
  qed
  from a b c show ?thesis by (simp add: default_timeout_def)
qed

theorem blocking_send_timeout_witness:
  "fst (send_command 49 (JObj []) True default_timeout
          [(3, HeartbeatTick), (4, Receive (Some (JObj (example_frame 1 8 ''other''))))]
          example_client)
     = Inl (TimeoutError (RequestTimedOut 49 9 10))
   \<and> clock (snd (send_command 49 (JObj []) True default_timeout
          [(3, HeartbeatTick), (4, Receive (Some (JObj (example_frame 1 8 ''other''))))]
          example_client)) = 10
   \<and> pending_responses (snd (send_command 49 (JObj []) True default_timeout
          [(3, HeartbeatTick), (4, Receive (Some (JObj (example_frame 1 8 ''other''))))]
          example_client)) 9 = None
   \<and> fst (send_command 49 (JObj []) True default_timeout
          ([(3, HeartbeatTick)] @ (4, Receive (Some (JObj (example_frame 1 9 ''reply'')))) # [])
          example_client)
     = Inr (JObj (example_frame 1 9 ''reply''))"
proof -
  have r: "is_running example_client" "ws example_client \<noteq> None"
    "seq_counter example_client = 9" "clock example_client = 0"
    by (simp_all add: example_client_def new_client_def)
  have c: "\<And>c n b. dict_get (example_frame c n b) ''cmd'' = JInt c"
    "\<And>c n b. dict_get (example_frame c n b) ''seq'' = JInt n"
    by (simp_all add: example_frame_def dict_get_def)
  show ?thesis
    using blocking_send_timeout [OF r(1) r(2), of
        "[(3, HeartbeatTick), (4, Receive (Some (JObj (example_frame 1 8 ''other''))))]"
        49 "JObj []" default_timeout "[(3, HeartbeatTick)]" "example_frame 1 9 ''reply''" 4 "[]"]
    by (simp add: r c)
qed

subsection \<open>Responses and the pending table\<close>

lemma wait_until_invariant:
  assumes step: "\<And>ev s. P s \<Longrightarrow> P (loop_step ev s)"
    and tick: "\<And>s n. P s \<Longrightarrow> P (s\<lparr>clock := n\<rparr>)"
  shows "P s \<Longrightarrow> P (wait_until c r sched s)"
proof (induction sched arbitrary: s r)
  case Nil
  then show ?case by (simp add: tick)
next
  case (Cons p sched)
  obtain d ev where p: "p = (d, ev)" by (cases p)
  have "P (loop_step ev (s\<lparr>clock := clock s + d\<rparr>))"
    by (rule step) (rule tick, rule Cons.prems)
  from Cons.IH [OF this] Cons.prems p show ?case by (simp add: tick)
qed

lemma process_message_resolved:
  "futures s k = None \<or> pending_responses s k = None \<Longrightarrow>
   futures (process_message m s) k = None \<or> pending_responses (process_message m s) k = None"
  by (auto simp: process_message_def log_line_def
      split: option.splits json.splits key.splits pending.splits if_splits)

lemma loop_step_resolved:
  "futures s k = None \<or> pending_responses s k = None \<Longrightarrow>
   futures (loop_step ev s) k = None \<or> pending_responses (loop_step ev s) k = None"
  by (cases ev) (simp_all add: process_message_resolved run_callbacks_frame send_heartbeat_frame)

lemma wait_until_resolved:
  "futures s k = None \<or> pending_responses s k = None \<Longrightarrow>
   futures (wait_until c r sched s) k = None \<or> pending_responses (wait_until c r sched s) k = None"
  by (rule wait_until_invariant [where P = "\<lambda>s. futures s k = None \<or> pending_responses s k = None"])
     (simp_all add: loop_step_resolved)

lemma send_command_async_entry_gone:
  assumes "is_running s" "ws s = Some OpenSocket"
  shows "pending_responses (snd (send_command_async opcode payload timeout sched s)) (seq_counter s) = None"
proof -
  let ?s3 = "s\<lparr>seq_counter := seq_counter s + 1,
      pending_responses := (pending_responses s)(seq_counter s \<mapsto> FutureEntry opcode),
      futures := (futures s)(seq_counter s := None),
      registered := registered s @ [seq_counter s],
      sent := sent s @ [make_command (seq_counter s) opcode payload]\<rparr>"
  have "futures ?s3 (seq_counter s) = None \<or> pending_responses ?s3 (seq_counter s) = None" by simp
  from wait_until_resolved [OF this, of "future_done (seq_counter s)" timeout sched] assms
  show ?thesis
    by (auto simp: send_command_async_def Let_def split: option.splits)
qed

lemma send_command_entry_gone:
  assumes "is_running s" "ws s \<noteq> None"
  shows "pending_responses (snd (send_command opcode payload True timeout sched s)) (seq_counter s) = None"
  by (simp add: send_command_waiting [OF assms] Let_def split: option.splits pending.splits)

lemma process_message_orphan:
  "answers k (Receive (Some (JObj kvs))) \<Longrightarrow> pending_responses s k = None \<Longrightarrow>
   process_message (Some (JObj kvs)) s = s"
  by (simp add: process_message_def)

text \<open>
  C3 as amended. A response frame with \<^verbatim>\<open>cmd\<close> 1 and \<^verbatim>\<open>seq\<close> \<open>k\<close> touches no
  entry and no future other than those at \<open>k\<close>. On the deferred path it removes the
  entry and resolves its future, and a second response for \<open>k\<close> then changes nothing.
  On the blocking path it stores the frame in the entry and sets the event, and the
  entry stays in the table: the waiting caller removes it. When the table holds nothing
  at \<open>k\<close> the frame changes nothing; this is the case once a blocking send has
  returned or timed out, and once a deferred send whose frame was written has returned
  or timed out.
\<close>

theorem response_resolves_entry:
  assumes "answers k (Receive (Some (JObj kvs)))"
  shows
   "(k' \<noteq> k \<longrightarrow>
       pending_responses (process_message (Some (JObj kvs)) s) k' = pending_responses s k' \<and>
       futures (process_message (Some (JObj kvs)) s) k' = futures s k')
    \<and> (pending_responses s k = Some (FutureEntry opcode) \<longrightarrow>
         pending_responses (process_message (Some (JObj kvs)) s) k = None \<and>
         futures (process_message (Some (JObj kvs)) s) k = Some (JObj kvs) \<and>
         process_message (Some (JObj kvs)) (process_message (Some (JObj kvs)) s)
           = process_message (Some (JObj kvs)) s)
    \<and> (pending_responses s k = Some (EventEntry flag resp opcode) \<longrightarrow>
         pending_responses (process_message (Some (JObj kvs)) s) k
           = Some (EventEntry True (JObj kvs) opcode))
    \<and> (pending_responses s k = None \<longrightarrow> process_message (Some (JObj kvs)) s = s)
    \<and> (is_running s \<and> ws s \<noteq> None \<and> k = seq_counter s \<longrightarrow>
         process_message (Some (JObj kvs)) (snd (send_command opcode payload True timeout sched s))
           = snd (send_command opcode payload True timeout sched s))
    \<and> (is_running s \<and> ws s = Some OpenSocket \<and> k = seq_counter s \<longrightarrow>
         process_message (Some (JObj kvs)) (snd (send_command_async opcode payload timeout sched s))
           = snd (send_command_async opcode payload timeout sched s))"
proof -
  have other: "k' \<noteq> k \<Longrightarrow>
       pending_responses (process_message (Some (JObj kvs)) s) k' = pending_responses s k' \<and>
       futures (process_message (Some (JObj kvs)) s) k' = futures s k'"
  proof -
    assume "k' \<noteq> k"
    with assms have "\<not> answers k' (Receive (Some (JObj kvs)))" by auto
    from process_message_other_key [OF this] show ?thesis .
  qed
  have fut: "pending_responses s k = Some (FutureEntry opcode) \<Longrightarrow>
         pending_responses (process_message (Some (JObj kvs)) s) k = None \<and>
         futures (process_message (Some (JObj kvs)) s) k = Some (JObj kvs)"
    using assms by (simp add: process_message_def log_line_def)
  have ev: "pending_responses s k = Some (EventEntry flag resp opcode) \<Longrightarrow>
         pending_responses (process_message (Some (JObj kvs)) s) k
           = Some (EventEntry True (JObj kvs) opcode)"
    using assms by (simp add: process_message_def log_line_def)
  have twice: "pending_responses s k = Some (FutureEntry opcode) \<Longrightarrow>
         process_message (Some (JObj kvs)) (process_message (Some (JObj kvs)) s)
           = process_message (Some (JObj kvs)) s"
    using fut process_message_orphan [OF assms] by simp
  have blocking: "is_running s \<Longrightarrow> ws s \<noteq> None \<Longrightarrow> k = seq_counter s \<Longrightarrow>
         process_message (Some (JObj kvs)) (snd (send_command opcode payload True timeout sched s))
           = snd (send_command opcode payload True timeout sched s)"
    using process_message_orphan [OF assms] send_command_entry_gone by simp
  have deferred: "is_running s \<Longrightarrow> ws s = Some OpenSocket \<Longrightarrow> k = seq_counter s \<Longrightarrow>
         process_message (Some (JObj kvs)) (snd (send_command_async opcode payload timeout sched s))
           = snd (send_command_async opcode payload timeout sched s)"
    using process_message_orphan [OF assms] send_command_async_entry_gone by simp
  from other fut ev twice blocking deferred process_message_orphan [OF assms]
  show ?thesis by blast
qed

theorem response_resolves_entry_counterexample:
  "pending_responses
     (process_message (Some (JObj (example_frame 1 7 ''first''))) example_client) 7
     = Some (EventEntry True (JObj (example_frame 1 7 ''first'')) 49)
   \<and> pending_responses
     (process_message (Some (JObj (example_frame 1 7 ''second'')))
        (process_message (Some (JObj (example_frame 1 7 ''first''))) example_client)) 7
     = Some (EventEntry True (JObj (example_frame 1 7 ''second'')) 49)"
  by (simp add: process_message_def log_line_def example_client_def new_client_def
      example_frame_def dict_get_def HEARTBEAT_def)

theorem response_resolves_entry_witness:
  "pending_responses (process_message (Some (JObj (example_frame 1 8 ''ok''))) example_client) 7
     = Some (EventEntry False JNull 49)
   \<and> pending_responses (process_message (Some (JObj (example_frame 1 8 ''ok''))) example_client) 8
     = None
   \<and> futures (process_message (Some (JObj (example_frame 1 8 ''ok''))) example_client) 8
     = Some (JObj (example_frame 1 8 ''ok''))
   \<and> process_message (Some (JObj (example_frame 1 8 ''ok'')))
        (process_message (Some (JObj (example_frame 1 8 ''ok''))) example_client)
     = process_message (Some (JObj (example_frame 1 8 ''ok''))) example_client
   \<and> pending_responses (process_message (Some (JObj (example_frame 1 7 ''hi''))) example_client) 7
     = Some (EventEntry True (JObj (example_frame 1 7 ''hi'')) 49)
   \<and> process_message (Some (JObj (example_frame 1 5 ''late''))) example_client = example_client
   \<and> process_message (Some (JObj (example_frame 1 9 ''late'')))
        (snd (send_command 49 (JObj []) True 10 [] example_client))
     = snd (send_command 49 (JObj []) True 10 [] example_client)
   \<and> process_message (Some (JObj (example_frame 1 9 ''late'')))
        (snd (send_command_async 75 (JObj []) 10 [] example_client))
     = snd (send_command_async 75 (JObj []) 10 [] example_client)"
proof -
  have p: "pending_responses example_client 5 = None"
    "pending_responses example_client 7 = Some (EventEntry False JNull 49)"
    "pending_responses example_client 8 = Some (FutureEntry 75)"
    "is_running example_client" "ws example_client = Some OpenSocket"
    "seq_counter example_client = 9"
    by (simp_all add: example_client_def new_client_def)
  have a: "\<And>n b. answers n (Receive (Some (JObj (example_frame 1 n b))))"
    by (simp add: example_frame_def dict_get_def)
  have a8: "answers 8 (Receive (Some (JObj (example_frame 1 8 ''ok''))))"
    and a7: "answers 7 (Receive (Some (JObj (example_frame 1 7 ''hi''))))"
    and a5: "answers 5 (Receive (Some (JObj (example_frame 1 5 ''late''))))"
    and a9: "answers 9 (Receive (Some (JObj (example_frame 1 9 ''late''))))"
    by (rule a)+
  show ?thesis
    using response_resolves_entry [OF a8, where s = example_client and k' = 7 and opcode = 75]
      response_resolves_entry [OF a7, where s = example_client
        and flag = False and resp = JNull and opcode = 49]
      response_resolves_entry [OF a5, where s = example_client]
      response_resolves_entry [OF a9, where s = example_client
        and opcode = 49 and payload = "JObj []" and timeout = 10 and sched = "[]"]
      response_resolves_entry [OF a9, where s = example_client
        and opcode = 75 and payload = "JObj []" and timeout = 10 and sched = "[]"]
    by (simp add: p)
qed

subsection \<open>Fields that waits and connection attempts leave alone\<close>


















subsection \<open>Reconnecting\<close>













subsection \<open>The first connection\<close>









lemmas connect_eval_defs = init_def connect_attempt_def handshake_async_def authenticate_async_def
  auth_response_def auth_store_def auth_contact_def auth_chat_dict_def py_item_def py_first_def
  py_iter_def py_get_default_def send_command_async_def process_message_def log_line_def
  new_client_def example_frame_def example_auth_frame_def example_profile_def
  example_connect_script_def dict_get_def HEARTBEAT_def HANDSHAKE_def AUTHENTICATE_def
  default_timeout_def future_done_def make_command_def auth_payload_def connect_bound_def Let_def


subsection \<open>Media resolution\<close>

text \<open>
  C9 as amended. With the payload of the protocol response a dict: the video fetch
  returns no media when neither \<^verbatim>\<open>MP4_1080\<close> nor \<^verbatim>\<open>MP4_720\<close> holds a URL, and
  otherwise fetches the URL and, on a good status with a \<^verbatim>\<open>content-type\<close> header,
  returns the bytes exactly when the header contains \<^verbatim>\<open>video\<close>. The file fetch
  returns no media when \<^verbatim>\<open>url\<close> holds no URL, and otherwise fetches the URL and, on a
  good status, returns the bytes with the name from \<^verbatim>\<open>X-File-Name\<close> (or
  \<^verbatim>\<open>downloaded_file\<close>), whatever the content type is. Both methods apply this to
  what the blocking command returned.
\<close>

theorem media_resolution:
  assumes "py_item info ''payload'' = Inr (JObj kvs)"
  shows
   "(\<not> py_truthy (py_or (dict_get kvs ''MP4_1080'') (dict_get kvs ''MP4_720''))
       \<longrightarrow> video_from_info info fetch = Inr None)
    \<and> (py_truthy (py_or (dict_get kvs ''MP4_1080'') (dict_get kvs ''MP4_720'')) \<and>
        fetch (py_or (dict_get kvs ''MP4_1080'') (dict_get kvs ''MP4_720'')) = Inr r \<and>
        status_ok r \<and> content_type r = Some ct
       \<longrightarrow> video_from_info info fetch
            = (if py_in ''video'' ct then Inr (Some (content r)) else Inr None))
    \<and> (\<not> py_truthy (dict_get kvs ''url'') \<longrightarrow> file_from_info info fetch = Inr None)
    \<and> (py_truthy (dict_get kvs ''url'') \<and> fetch (dict_get kvs ''url'') = Inr r \<and> status_ok r
       \<longrightarrow> file_from_info info fetch
            = Inr (Some (content r,
                         (case x_file_name r of
                            None \<Rightarrow> ''downloaded_file''
                          | Some n \<Rightarrow> (if n = [] then ''downloaded_file'' else n)))))
    \<and> (send_command 83 (JObj [(''videoId'', JInt video_id), (''token'', token_json s)])
           True default_timeout sched s = (Inr info, s1)
       \<longrightarrow> get_video video_id sched fetch s = (video_from_info info fetch, s1))
    \<and> (send_command 88 (JObj [(''fileId'', JInt file_id), (''chatId'', JInt chat_id),
                                (''messageId'', JStr msg_id)])
           True default_timeout sched s = (Inr info, s1)
       \<longrightarrow> get_file file_id chat_id msg_id sched fetch s = (file_from_info info fetch, s1))"
  using assms
  by (simp add: video_from_info_def file_from_info_def get_video_def get_file_def
      py_get_default_def dict_get_def)

lemmas media_eval_defs = get_file_def get_video_def file_from_info_def video_from_info_def
  send_command_def add_write_callback_def event_is_set_def process_message_def log_line_def
  example_client_def new_client_def example_media_frame_def example_fetch_def dict_get_def
  py_item_def py_get_default_def py_or_def HEARTBEAT_def default_timeout_def make_command_def
  token_json_def Let_def

theorem media_resolution_counterexample:
  "fst (get_file 1 12345 ''77'' [(1, Receive (Some (JObj (example_media_frame 9 ''url''))))]
          example_fetch example_client)
     = Inr (Some (''<html>not found</html>'', ''downloaded_file''))
   \<and> fst (get_video 1 [(1, Receive (Some (JObj (example_media_frame 9 ''MP4_720''))))]
          example_fetch example_client)
     = Inr None"
  by (simp add: media_eval_defs)

theorem media_resolution_witness:
  "video_from_info (JObj (example_media_frame 9 ''url'')) example_fetch = Inr None
   \<and> video_from_info (JObj (example_media_frame 9 ''MP4_1080''))
        (\<lambda>url. Inr \<lparr>status_ok = True, content_type = Some ''video/mp4'', x_file_name = None,
                     content = ''bytes''\<rparr>) = Inr (Some ''bytes'')
   \<and> video_from_info (JObj (example_media_frame 9 ''MP4_1080'')) example_fetch = Inr None
   \<and> file_from_info (JObj (example_media_frame 9 ''MP4_720'')) example_fetch = Inr None
   \<and> file_from_info (JObj (example_media_frame 9 ''url''))
        (\<lambda>url. Inr \<lparr>status_ok = True, content_type = None, x_file_name = Some ''a.pdf'',
                     content = ''bytes''\<rparr>) = Inr (Some (''bytes'', ''a.pdf''))"
proof -
  have p: "\<And>k. py_item (JObj (example_media_frame 9 k)) ''payload''
      = Inr (JObj [(k, JStr ''https://files.example/f/1'')])"
    by (simp add: py_item_def example_media_frame_def)
  show ?thesis
    using media_resolution [OF p, where k1 = "''url''" and fetch = example_fetch]
      media_resolution [OF p, where k1 = "''MP4_1080''" and ct = "''video/mp4''"
        and fetch = "\<lambda>url. Inr \<lparr>status_ok = True, content_type = Some ''video/mp4'',
                     x_file_name = None, content = ''bytes''\<rparr>"
        and r = "\<lparr>status_ok = True, content_type = Some ''video/mp4'',
                     x_file_name = None, content = ''bytes''\<rparr>"]
      media_resolution [OF p, where k1 = "''MP4_1080''" and fetch = example_fetch
        and ct = "''text/html; charset=utf-8''"
        and r = "\<lparr>status_ok = True, content_type = Some ''text/html; charset=utf-8'',
          x_file_name = None, content = ''<html>not found</html>''\<rparr>"]
      media_resolution [OF p, where k1 = "''MP4_720''" and fetch = example_fetch]
      media_resolution [OF p, where k1 = "''url''"
        and fetch = "\<lambda>url. Inr \<lparr>status_ok = True, content_type = None,
                     x_file_name = Some ''a.pdf'', content = ''bytes''\<rparr>"
        and r = "\<lparr>status_ok = True, content_type = None,
                     x_file_name = Some ''a.pdf'', content = ''bytes''\<rparr>"]
    by (simp add: dict_get_def py_or_def example_fetch_def)
qed

subsection \<open>Heartbeat\<close>

text \<open>
  C8, at a heartbeat tick on a client that is running while its socket is closed. The
  tick only queues the write; the write fails when the loop runs it, the loop logs the
  exception, and the client is still marked running. The tick itself changes neither
  the socket, nor the heartbeat timer, nor the reconnect sleeps.
\<close>

theorem heartbeat_write_failure:
  "is_running example_closed
   \<and> ws example_closed = Some ClosedSocket
   \<and> callbacks (send_heartbeat example_closed) = [heartbeat_frame 9]
   \<and> is_running (send_heartbeat example_closed)
   \<and> sent (run_callbacks (send_heartbeat example_closed)) = []
   \<and> logged (run_callbacks (send_heartbeat example_closed)) = [LogCallbackException]
   \<and> is_running (run_callbacks (send_heartbeat example_closed))
   \<and> sleeps (run_callbacks (send_heartbeat example_closed)) = []"
  by (simp add: example_closed_def example_client_def new_client_def send_heartbeat_def
      run_callbacks_def run_write_def log_line_def)

subsection \<open>Sequence numbers\<close>

lemma seq_extends_refl: "seq_extends s s"
  by (simp add: seq_extends_def)

lemma seq_extends_trans:
  assumes "seq_extends s t" "seq_extends t u"
  shows "seq_extends s u"
proof -
  from assms(1) obtain n1 where n1: "seq_counter s \<le> seq_counter t"
    "registered t = registered s @ n1" "sorted_wrt (<) n1"
    "list_all (\<lambda>k. seq_counter s \<le> k \<and> k < seq_counter t) n1"
    "dom (pending_responses t) \<subseteq> dom (pending_responses s) \<union> set n1"
    by (auto simp: seq_extends_def)
  from assms(2) obtain n2 where n2: "seq_counter t \<le> seq_counter u"
    "registered u = registered t @ n2" "sorted_wrt (<) n2"
    "list_all (\<lambda>k. seq_counter t \<le> k \<and> k < seq_counter u) n2"
    "dom (pending_responses u) \<subseteq> dom (pending_responses t) \<union> set n2"
    by (auto simp: seq_extends_def)
  have a: "registered u = registered s @ (n1 @ n2)" using n1(2) n2(2) by simp
  have b: "sorted_wrt (<) (n1 @ n2)"
    using n1(3,4) n2(3,4) by (fastforce simp: sorted_wrt_append list_all_iff)
  have c: "list_all (\<lambda>k. seq_counter s \<le> k \<and> k < seq_counter u) (n1 @ n2)"
    using n1(1,4) n2(1,4) by (fastforce simp: list_all_iff)
  have d: "dom (pending_responses u) \<subseteq> dom (pending_responses s) \<union> set (n1 @ n2)"
    using n1(5) n2(5) by (simp only: set_append) blast
  from n1(1) n2(1) a b c d show ?thesis unfolding seq_extends_def by (intro conjI exI [of _ "n1 @ n2"]) simp_all
qed

lemma seq_extends_same:
  "seq_counter s \<le> seq_counter t \<Longrightarrow> registered t = registered s \<Longrightarrow>
   dom (pending_responses t) \<subseteq> dom (pending_responses s) \<Longrightarrow> seq_extends s t"
  by (simp add: seq_extends_def)

lemma seq_extends_register:
  "seq_counter t = seq_counter s + 1 \<Longrightarrow> registered t = registered s @ [seq_counter s] \<Longrightarrow>
   dom (pending_responses t) \<subseteq> insert (seq_counter s) (dom (pending_responses s)) \<Longrightarrow>
   seq_extends s t"
  unfolding seq_extends_def by (intro conjI exI [of _ "[seq_counter s]"]) auto

lemma process_message_dom:
  "dom (pending_responses (process_message m s)) \<subseteq> dom (pending_responses s)"
  by (auto simp: process_message_def log_line_def
      split: option.splits json.splits key.splits pending.splits if_splits)

lemma loop_step_extends: "seq_extends s (loop_step ev s)"
proof (cases ev)
  case (Receive m)
  then show ?thesis
    by (simp add: seq_extends_same process_message_frame process_message_dom)
next
  case RunCallbacks
  then show ?thesis by (simp add: seq_extends_same run_callbacks_frame)
next
  case HeartbeatTick
  then show ?thesis
    by (auto intro!: seq_extends_same simp: send_heartbeat_def log_line_def split: option.splits)
qed

lemma wait_until_extends: "seq_extends s (wait_until c r sched s)"
proof (rule wait_until_invariant [where P = "seq_extends s"])
  fix ev t assume "seq_extends s t"
  from seq_extends_trans [OF this loop_step_extends] show "seq_extends s (loop_step ev t)" .
next
  fix t :: client and n assume "seq_extends s t"
  then show "seq_extends s (t\<lparr>clock := n\<rparr>)" by (simp add: seq_extends_def)
qed (rule seq_extends_refl)

lemma send_command_async_extends:
  "seq_extends s (snd (send_command_async opcode payload t sched s))"
proof (cases "is_running s")
  case False
  then show ?thesis by (simp add: send_command_async_def seq_extends_refl)
next
  case True
  let ?s2 = "s\<lparr>seq_counter := seq_counter s + 1,
      pending_responses := (pending_responses s)(seq_counter s \<mapsto> FutureEntry opcode),
      futures := (futures s)(seq_counter s := None),
      registered := registered s @ [seq_counter s]\<rparr>"
  let ?s3 = "?s2\<lparr>sent := sent ?s2 @ [make_command (seq_counter s) opcode payload]\<rparr>"
  let ?s4 = "wait_until (future_done (seq_counter s)) t sched ?s3"
  have a: "seq_extends s ?s2" by (rule seq_extends_register) simp_all
  have b: "seq_extends s ?s3" by (rule seq_extends_register) simp_all
  have c: "seq_extends s ?s4" by (rule seq_extends_trans [OF b wait_until_extends])
  have "seq_extends ?s4 (?s4\<lparr>pending_responses := (pending_responses ?s4)(seq_counter s := None)\<rparr>)"
    by (rule seq_extends_same) auto
  from seq_extends_trans [OF c this]
  have d: "seq_extends s (?s4\<lparr>pending_responses := (pending_responses ?s4)(seq_counter s := None)\<rparr>)" .
  from True a c d show ?thesis
    by (simp add: send_command_async_def Let_def split: option.splits socket.splits)
qed

lemma send_command_extends:
  "seq_extends s (snd (send_command opcode payload w t sched s))"
proof (cases "is_running s")
  case False
  then show ?thesis by (simp add: send_command_def seq_extends_refl)
next
  case True
  let ?s1 = "s\<lparr>seq_counter := seq_counter s + 1\<rparr>"
  let ?s1c = "?s1\<lparr>callbacks := callbacks ?s1 @ [make_command (seq_counter s) opcode payload]\<rparr>"
  let ?s2 = "?s1\<lparr>pending_responses :=
                 (pending_responses ?s1)(seq_counter s \<mapsto> EventEntry False JNull opcode),
               registered := registered ?s1 @ [seq_counter s]\<rparr>"
  let ?s3 = "?s2\<lparr>callbacks := callbacks ?s2 @ [make_command (seq_counter s) opcode payload]\<rparr>"
  let ?s4 = "wait_until (event_is_set (seq_counter s)) t sched ?s3"
  let ?s5 = "?s4\<lparr>pending_responses := (pending_responses ?s4)(seq_counter s := None)\<rparr>"
  have f1: "seq_extends s ?s1" by (rule seq_extends_same) simp_all
  have f2: "seq_extends s ?s1c" by (rule seq_extends_same) simp_all
  have a: "seq_extends s ?s2" by (rule seq_extends_register) simp_all
  have b: "seq_extends s ?s3" by (rule seq_extends_register) simp_all
  have c: "seq_extends s ?s4" by (rule seq_extends_trans [OF b wait_until_extends])
  have "seq_extends ?s4 ?s5" by (rule seq_extends_same) auto
  from seq_extends_trans [OF c this] have d: "seq_extends s ?s5" .
  from True f1 f2 a d show ?thesis
    by (simp add: send_command_def add_write_callback_def Let_def
        split: option.splits pending.splits)
qed

lemma subscribe_to_chat_extends:
  "seq_extends s (snd (subscribe_to_chat chat_id sub sched s))"
proof -
  let ?call = "send_command SUBSCRIBE_TO_CHAT
             (JObj [(''chatId'', JInt chat_id), (''subscribe'', JBool sub)])
             True default_timeout sched s"
  obtain r s1 where r: "?call = (r, s1)" by (cases ?call)
  have c1: "seq_extends s s1"
    using send_command_extends [of s SUBSCRIBE_TO_CHAT
        "JObj [(''chatId'', JInt chat_id), (''subscribe'', JBool sub)]" True default_timeout sched] r
    by simp
  have "seq_extends s1 (s1\<lparr>subscribed_chats := x\<rparr>)" for x
    by (rule seq_extends_same) simp_all
  from seq_extends_trans [OF c1 this] c1 r show ?thesis
    by (cases r) (simp_all add: subscribe_to_chat_def)
qed

lemma handshake_async_extends: "seq_extends s (snd (handshake_async sched s))"
  by (simp add: handshake_async_def send_command_async_extends)

lemma auth_response_extends: "seq_extends s (snd (auth_response response s))"
  by (auto intro!: seq_extends_same simp: auth_response_def auth_store_def seq_extends_refl
      split: sum.splits)

lemma authenticate_async_extends: "seq_extends s (snd (authenticate_async sched s))"
proof (cases "token s")
  case None
  then show ?thesis
    by (auto intro!: seq_extends_same simp: authenticate_async_def log_line_def)
next
  case (Some tok)
  obtain r s1 where r: "send_command_async AUTHENTICATE (auth_payload tok) default_timeout sched s = (r, s1)"
    by (cases "send_command_async AUTHENTICATE (auth_payload tok) default_timeout sched s")
  have c1: "seq_extends s s1"
    using send_command_async_extends [of s AUTHENTICATE "auth_payload tok" default_timeout sched] r
    by simp
  from Some r c1 seq_extends_trans [OF c1 auth_response_extends] show ?thesis
    by (cases r) (simp_all add: authenticate_async_def)
qed

lemma resubscribe_extends: "seq_extends s (resubscribe chat_ids ios s)"
proof (induction chat_ids arbitrary: ios s)
  case Nil
  show ?case by (simp add: seq_extends_refl)
next
  case (Cons chat_id rest)
  let ?call = "send_command_async SUBSCRIBE_TO_CHAT
             (JObj [(''chatId'', JInt chat_id), (''subscribe'', JBool True)])
             default_timeout (case ios of [] \<Rightarrow> [] | io # others \<Rightarrow> io) s"
  obtain r s1 where r: "?call = (r, s1)" by (cases ?call)
  have c1: "seq_extends s s1"
    using send_command_async_extends [of s SUBSCRIBE_TO_CHAT
        "JObj [(''chatId'', JInt chat_id), (''subscribe'', JBool True)]" default_timeout
        "case ios of [] \<Rightarrow> [] | io # others \<Rightarrow> io"] r by simp
  show ?case
  proof (cases r)
    case (Inl e)
    have "seq_extends s1 (log_line (LogResubscribeFailed chat_id e) s1)"
      by (rule seq_extends_same) (simp_all add: log_line_def)
    from seq_extends_trans [OF c1 seq_extends_trans [OF this Cons.IH]] r Inl
    show ?thesis by simp
  next
    case (Inr response)
    from seq_extends_trans [OF c1 Cons.IH] r Inr show ?thesis by simp
  qed
qed

lemma handshake_then_auth_extends:
  "seq_extends s
     (snd (case handshake_async hs s of
             (Inl e, s1) \<Rightarrow> (Inl e, s1)
           | (Inr response, s1) \<Rightarrow>
               (case (if token s1 \<noteq> None then authenticate_async au s1 else (Inr (), s1)) of
                  (Inl e, s2) \<Rightarrow> (Inl e, s2)
                | (Inr u, s2) \<Rightarrow> (Inr (), f s2))))"
  if f: "\<And>t. seq_extends t (f t)"
proof -
  obtain r s1 where h: "handshake_async hs s = (r, s1)" by (cases "handshake_async hs s")
  have c1: "seq_extends s s1" using handshake_async_extends [of s hs] h by simp
  show ?thesis
  proof (cases r)
    case (Inl e)
    with h c1 show ?thesis by simp
  next
    case (Inr response)
    let ?a = "if token s1 \<noteq> None then authenticate_async au s1 else (Inr (), s1)"
    obtain r2 s2 where a: "?a = (r2, s2)" by (cases ?a)
    have c2: "seq_extends s1 s2"
    proof (cases "token s1 = None")
      case True
      with a show ?thesis by (simp add: seq_extends_refl)
    next
      case False
      with a have "s2 = snd (authenticate_async au s1)" by simp
      then show ?thesis by (simp add: authenticate_async_extends)
    qed
    show ?thesis
    proof (cases r2)
      case (Inl e)
      with h Inr a seq_extends_trans [OF c1 c2] show ?thesis by simp
    next
      case (Inr u)
      with h \<open>r = Inr response\<close> a seq_extends_trans [OF c1 seq_extends_trans [OF c2 f [of s2]]]
      show ?thesis by simp
    qed
  qed
qed

lemma reconnect_attempt_extends: "seq_extends s (snd (reconnect_attempt a s))"
proof (cases "connect_ok a")
  case False
  then show ?thesis by (auto intro!: seq_extends_same simp: reconnect_attempt_def)
next
  case True
  let ?s1 = "s\<lparr>clock := clock s + connect_time a, ws := Some OpenSocket, is_running := True\<rparr>"
  have f: "\<And>t. seq_extends t (resubscribe (subscribed_chats t) (resub_io a) (heartbeat_start t))"
  proof -
    fix t
    have "seq_extends t (heartbeat_start t)"
      by (rule seq_extends_same)
         (simp_all add: heartbeat_start_def split: option.splits periodic.splits)
    from seq_extends_trans [OF this resubscribe_extends]
    show "seq_extends t (resubscribe (subscribed_chats t) (resub_io a) (heartbeat_start t))" .
  qed
  have "seq_extends s ?s1" by (rule seq_extends_same) simp_all
  from seq_extends_trans [OF this
      handshake_then_auth_extends [where f = "\<lambda>t. resubscribe (subscribed_chats t) (resub_io a) (heartbeat_start t)"
        and s = ?s1 and hs = "handshake_io a" and au = "auth_io a", OF f]] True
  show ?thesis by (simp add: reconnect_attempt_def Let_def)
qed

lemma reconnect_loop_extends: "seq_extends s (reconnect_loop d script s)"
proof (induction script arbitrary: d s)
  case Nil
  show ?case by (simp add: seq_extends_refl)
next
  case (Cons a rest)
  let ?s1 = "s\<lparr>sleeps := sleeps s @ [d], clock := clock s + d\<rparr>"
  obtain r s2 where at: "reconnect_attempt a ?s1 = (r, s2)" by (cases "reconnect_attempt a ?s1")
  have "seq_extends s ?s1" by (rule seq_extends_same) simp_all
  from seq_extends_trans [OF this reconnect_attempt_extends [of ?s1 a]] at
  have c2: "seq_extends s s2" by simp
  show ?case
  proof (cases "should_reconnect s \<and> auto_reconnect s")
    case False
    then show ?thesis by (auto simp: seq_extends_refl)
  next
    case True
    show ?thesis
    proof (cases r)
      case (Inr u)
      with True at c2 show ?thesis by simp
    next
      case (Inl e)
      have "seq_extends s2 (log_line (LogReconnectFailed e) s2)"
        by (rule seq_extends_same) (simp_all add: log_line_def)
      from seq_extends_trans [OF c2 seq_extends_trans [OF this Cons.IH]] True at Inl
      show ?thesis by simp
    qed
  qed
qed

lemma reconnect_async_extends: "seq_extends s (reconnect_async script s)"
proof -
  have "seq_extends s (ws_close (heartbeat_stop (s\<lparr>is_running := False\<rparr>)))"
    by (rule seq_extends_same)
       (simp_all add: ws_close_def heartbeat_stop_def split: option.splits periodic.splits)
  from seq_extends_trans [OF this reconnect_loop_extends] show ?thesis
    by (simp add: reconnect_async_def)
qed

lemma connect_attempt_extends: "seq_extends s (snd (connect_attempt a s))"
proof (cases "connect_ok a")
  case False
  then show ?thesis by (auto intro!: seq_extends_same simp: connect_attempt_def)
next
  case True
  let ?s1 = "s\<lparr>clock := clock s + connect_time a, ws := Some OpenSocket, is_running := True\<rparr>"
  have f: "\<And>t. seq_extends t
      (t\<lparr>heartbeat_callback := Some (PeriodicCallback 3000 True), ready_event := True\<rparr>)"
    by (rule seq_extends_same) simp_all
  have "seq_extends s ?s1" by (rule seq_extends_same) simp_all
  from seq_extends_trans [OF this
      handshake_then_auth_extends [where f = "\<lambda>t. t\<lparr>heartbeat_callback := Some (PeriodicCallback 3000 True), ready_event := True\<rparr>"
        and s = ?s1 and hs = "handshake_io a" and au = "auth_io a", OF f]] True
  show ?thesis by (simp add: connect_attempt_def Let_def)
qed

lemma connect_and_run_extends: "seq_extends s (connect_and_run script s)"
proof (induction script arbitrary: s)
  case Nil
  show ?case by (simp add: seq_extends_refl)
next
  case (Cons a rest)
  obtain r s1 where c: "connect_attempt a s = (r, s1)" by (cases "connect_attempt a s")
  have c1: "seq_extends s s1" using connect_attempt_extends [of s a] c by simp
  show ?case
  proof (cases "should_reconnect s")
    case False
    then show ?thesis by (simp add: seq_extends_refl)
  next
    case True
    show ?thesis
    proof (cases r)
      case (Inr u)
      with True c c1 show ?thesis by simp
    next
      case (Inl e)
      let ?s2 = "(log_line (LogConnectionFailed e) s1)\<lparr>sleeps := sleeps s1 @ [5], clock := clock s1 + 5\<rparr>"
      have "seq_extends s1 ?s2" by (rule seq_extends_same) (simp_all add: log_line_def)
      from seq_extends_trans [OF c1 seq_extends_trans [OF this Cons.IH]] True c Inl
      show ?thesis by simp
    qed
  qed
qed

lemma listener_loop_async_extends: "seq_extends s (listener_loop_async reads script s)"
proof (induction reads arbitrary: s)
  case Nil
  show ?case by (simp add: seq_extends_refl)
next
  case (Cons r reads)
  have lg: "seq_extends s (reconnect_async script (log_line e s))" for e
  proof -
    have "seq_extends s (log_line e s)" by (rule seq_extends_same) (simp_all add: log_line_def)
    from seq_extends_trans [OF this reconnect_async_extends] show ?thesis .
  qed
  show ?case
  proof (cases r)
    case (Message m)
    have "seq_extends s (process_message m s)"
      using loop_step_extends [of s "Receive m"] by simp
    from seq_extends_trans [OF this Cons.IH] Message show ?thesis
      by (simp add: seq_extends_refl)
  qed (simp_all add: lg seq_extends_refl)
qed

lemma close_extends: "seq_extends s (close s)"
  by (rule seq_extends_same)
     (simp_all add: close_def Let_def shutdown_async_def ws_close_def heartbeat_stop_def
        split: option.splits periodic.splits)

lemma run_op_extends: "seq_extends s (run_op x s)"
  by (cases x)
     (simp_all add: connect_and_run_extends send_command_extends send_command_async_extends
        subscribe_to_chat_extends loop_step_extends listener_loop_async_extends close_extends)

lemma run_ops_extends: "seq_extends s (run_ops xs s)"
proof (induction xs arbitrary: s)
  case Nil
  show ?case by (simp add: seq_extends_refl)
next
  case (Cons x xs)
  from seq_extends_trans [OF run_op_extends Cons.IH] show ?case by simp
qed

lemmas lifetime_eval_defs = example_lifetime_def connect_eval_defs subscribe_to_chat_def
  send_command_def add_write_callback_def event_is_set_def send_heartbeat_def
  reconnect_async_def reconnect_attempt_def heartbeat_stop_def heartbeat_start_def ws_close_def
  max_delay_def SUBSCRIBE_TO_CHAT_def

lemma send_command_async_consumes:
  assumes "is_running s"
  shows "(\<exists>new. registered (snd (send_command_async opcode payload timeout sched s))
              = registered s @ seq_counter s # new)
         \<and> seq_counter s < seq_counter (snd (send_command_async opcode payload timeout sched s))"
proof -
  let ?s2 = "s\<lparr>seq_counter := seq_counter s + 1,
      pending_responses := (pending_responses s)(seq_counter s \<mapsto> FutureEntry opcode),
      futures := (futures s)(seq_counter s := None),
      registered := registered s @ [seq_counter s]\<rparr>"
  let ?s3 = "?s2\<lparr>sent := sent ?s2 @ [make_command (seq_counter s) opcode payload]\<rparr>"
  let ?s4 = "wait_until (future_done (seq_counter s)) timeout sched ?s3"
  from wait_until_extends [of ?s3 "future_done (seq_counter s)" timeout sched]
  obtain new where new: "seq_counter s + 1 \<le> seq_counter ?s4"
    "registered ?s4 = registered s @ seq_counter s # new"
    by (auto simp: seq_extends_def)
  have "registered ?s2 = registered s @ seq_counter s # []" by simp
  with assms new show ?thesis
    by (auto simp: send_command_async_def Let_def split: option.splits socket.splits)
qed

lemma send_command_consumes:
  assumes "is_running s" "ws s \<noteq> None"
  shows "(\<exists>new. registered (snd (send_command opcode payload True timeout sched s))
              = registered s @ seq_counter s # new)
         \<and> seq_counter s < seq_counter (snd (send_command opcode payload True timeout sched s))"
proof -
  let ?s3 = "s\<lparr>seq_counter := seq_counter s + 1,
                 pending_responses := (pending_responses s)(seq_counter s \<mapsto> EventEntry False JNull opcode),
                 registered := registered s @ [seq_counter s],
                 callbacks := callbacks s @ [make_command (seq_counter s) opcode payload]\<rparr>"
  let ?s4 = "wait_until (event_is_set (seq_counter s)) timeout sched ?s3"
  from wait_until_extends [of ?s3 "event_is_set (seq_counter s)" timeout sched]
  obtain new where new: "seq_counter s + 1 \<le> seq_counter ?s4"
    "registered ?s4 = registered s @ seq_counter s # new"
    by (auto simp: seq_extends_def)
  then show ?thesis
    by (auto simp: send_command_waiting [OF assms] Let_def split: option.splits pending.splits)
qed

text \<open>
  C2. The sequence counter belongs to the client object, starts at 0 and is only ever
  advanced. Over any lifetime of a client (first connection, sends from caller threads,
  subscriptions, frames, heartbeat ticks, listener runs with their reconnects, close)
  the keys under which pending requests were stored are strictly increasing, hence
  pairwise distinct, all below the counter, and the pending table holds no other key.
  No operation lowers the counter, a reconnect included. On a running client every
  outbound command takes the current counter value as its \<^verbatim>\<open>seq\<close> and advances the
  counter: the heartbeat, the fire-and-forget send, the blocking send and the deferred
  send.
\<close>

theorem sequence_ids_unique:
  "sorted_wrt (<) (registered (run_ops ops (new_client tok auto)))
   \<and> distinct (registered (run_ops ops (new_client tok auto)))
   \<and> list_all (\<lambda>k. 0 \<le> k \<and> k < seq_counter (run_ops ops (new_client tok auto)))
        (registered (run_ops ops (new_client tok auto)))
   \<and> dom (pending_responses (run_ops ops (new_client tok auto)))
        \<subseteq> set (registered (run_ops ops (new_client tok auto)))
   \<and> seq_counter s \<le> seq_counter (run_op x s)
   \<and> seq_counter s \<le> seq_counter (reconnect_async script s)
   \<and> (is_running s \<and> ws s \<noteq> None \<longrightarrow>
        send_heartbeat s
          = s\<lparr>seq_counter := seq_counter s + 1,
              callbacks := callbacks s @ [heartbeat_frame (seq_counter s)]\<rparr>
        \<and> send_command opcode payload False timeout sched s
          = (Inr JNull,
             s\<lparr>seq_counter := seq_counter s + 1,
               callbacks := callbacks s @ [make_command (seq_counter s) opcode payload]\<rparr>)
        \<and> (\<exists>new. registered (snd (send_command opcode payload True timeout sched s))
                  = registered s @ seq_counter s # new)
        \<and> seq_counter s < seq_counter (snd (send_command opcode payload True timeout sched s))
        \<and> (\<exists>new. registered (snd (send_command_async opcode payload timeout sched s))
                  = registered s @ seq_counter s # new)
        \<and> seq_counter s < seq_counter (snd (send_command_async opcode payload timeout sched s)))"
proof -
  let ?l = "run_ops ops (new_client tok auto)"
  from run_ops_extends [of "new_client tok auto" ops]
  obtain new where new: "registered ?l = registered (new_client tok auto) @ new"
    "sorted_wrt (<) new"
    "list_all (\<lambda>k. seq_counter (new_client tok auto) \<le> k \<and> k < seq_counter ?l) new"
    "dom (pending_responses ?l) \<subseteq> dom (pending_responses (new_client tok auto)) \<union> set new"
    by (auto simp: seq_extends_def)
  have reg: "registered ?l = new" using new(1) by (simp add: new_client_def)
  have a: "sorted_wrt (<) (registered ?l)" using new(2) reg by simp
  have b: "distinct (registered ?l)" using a by (simp add: strict_sorted_iff)
  have c: "list_all (\<lambda>k. 0 \<le> k \<and> k < seq_counter ?l) (registered ?l)"
    using new(3) reg by (simp add: new_client_def)
  have d: "dom (pending_responses ?l) \<subseteq> set (registered ?l)"
    using new(4) reg by (simp add: new_client_def)
  have e: "seq_counter s \<le> seq_counter (run_op x s)"
    using run_op_extends [of s x] by (simp add: seq_extends_def)
  have f: "seq_counter s \<le> seq_counter (reconnect_async script s)"
    using reconnect_async_extends [of s script] by (simp add: seq_extends_def)
  have g: "send_heartbeat s
          = s\<lparr>seq_counter := seq_counter s + 1,
              callbacks := callbacks s @ [heartbeat_frame (seq_counter s)]\<rparr>
        \<and> send_command opcode payload False timeout sched s
          = (Inr JNull,
             s\<lparr>seq_counter := seq_counter s + 1,
               callbacks := callbacks s @ [make_command (seq_counter s) opcode payload]\<rparr>)"
    if "is_running s" "ws s \<noteq> None"
    using that by (auto simp: send_heartbeat_def send_command_def add_write_callback_def Let_def)
  from a b c d e f g send_command_consumes [of s opcode payload timeout sched]
    send_command_async_consumes [of s opcode payload timeout sched]
  show ?thesis by blast
qed

theorem sequence_ids_unique_witness:
  "registered (run_ops example_lifetime (new_client (Some ''secret'') True))
     = [0, 1, 2, 3, 4, 5, 7, 8, 9]
   \<and> seq_counter (run_ops example_lifetime (new_client (Some ''secret'') True)) = 11
   \<and> distinct (registered (run_ops example_lifetime (new_client (Some ''secret'') True)))
   \<and> dom (pending_responses (run_ops example_lifetime (new_client (Some ''secret'') True)))
       \<subseteq> {0, 1, 2, 3, 4, 5, 7, 8, 9}
   \<and> seq_counter (send_heartbeat example_client) = 10
   \<and> callbacks (send_heartbeat example_client) = [heartbeat_frame 9]
   \<and> send_command 64 (JObj []) False 10 [] example_client
       = (Inr JNull, example_client\<lparr>seq_counter := 10, callbacks := [make_command 9 64 (JObj [])]\<rparr>)
   \<and> 9 < seq_counter (snd (send_command 49 (JObj []) True 10 [] example_client))
   \<and> 9 < seq_counter (snd (send_command_async 75 (JObj []) 10 [] example_client))"
proof -
  have reg: "registered (run_ops example_lifetime (new_client (Some ''secret'') True))
     = [0, 1, 2, 3, 4, 5, 7, 8, 9]"
    by (simp add: lifetime_eval_defs)
  have cnt: "seq_counter (run_ops example_lifetime (new_client (Some ''secret'') True)) = 11"
    by (simp add: lifetime_eval_defs)
  have r: "is_running example_client" "ws example_client \<noteq> None"
    "seq_counter example_client = 9" "callbacks example_client = []"
    by (simp_all add: example_client_def new_client_def)
  note th = sequence_ids_unique [of example_lifetime "Some ''secret''" True example_client
      _ _ 64 "JObj []" 10 "[]"]
  note th2 = sequence_ids_unique [of example_lifetime "Some ''secret''" True example_client
      _ _ 49 "JObj []" 10 "[]"]
  note th3 = sequence_ids_unique [of example_lifetime "Some ''secret''" True example_client
      _ _ 75 "JObj []" 10 "[]"]
  from th reg have dist: "distinct (registered (run_ops example_lifetime (new_client (Some ''secret'') True)))"
    and dom: "dom (pending_responses (run_ops example_lifetime (new_client (Some ''secret'') True)))
       \<subseteq> set [0, 1, 2, 3, 4, 5, 7, 8, 9]"
    by simp_all
  from th r have hb: "send_heartbeat example_client
          = example_client\<lparr>seq_counter := 10, callbacks := [heartbeat_frame 9]\<rparr>"
    and ff: "send_command 64 (JObj []) False 10 [] example_client
       = (Inr JNull, example_client\<lparr>seq_counter := 10, callbacks := [make_command 9 64 (JObj [])]\<rparr>)"
    by simp_all
  from th2 r have bl: "9 < seq_counter (snd (send_command 49 (JObj []) True 10 [] example_client))"
    by simp
  from th3 r have de: "9 < seq_counter (snd (send_command_async 75 (JObj []) 10 [] example_client))"
    by simp
  from reg cnt dist dom hb ff bl de show ?thesis by simp
qed

end
